theory Spec2Isabelle
  imports Main "HOL-Library.AList"
begin

section \<open>Values shared by the models\<close>

subsection \<open>JSON values and JavaScript truthiness\<close>

text \<open>
  Request bodies and the fields typed \<open>any\<close> in the source hold arbitrary JSON values.
  \<open>truthy\<close> is the test JavaScript applies in \<open>a || b\<close> and \<open>if (a)\<close>; a missing
  property (\<open>undefined\<close>) is \<open>None\<close> and is falsy. Numbers are kept to the integers:
  only whether a number is zero matters here.
\<close>

datatype json =
    JNull
  | JBool bool
  | JNum int
  | JStr string
  | JArr "json list"
  | JObj "(string \<times> json) list"

fun truthy :: "json \<Rightarrow> bool" where
  "truthy JNull = False"
| "truthy (JBool b) = b"
| "truthy (JNum n) = (n \<noteq> 0)"
| "truthy (JStr s) = (s \<noteq> [])"
| "truthy (JArr xs) = True"
| "truthy (JObj kvs) = True"

text \<open>\<open>a || b\<close> on a possibly undefined \<open>a\<close>.\<close>

fun js_or :: "json option \<Rightarrow> json \<Rightarrow> json" where
  "js_or None b = b"
| "js_or (Some a) b = (if truthy a then a else b)"

text \<open>A string used as a condition: \<open>null\<close>, \<open>undefined\<close> and \<open>""\<close> are falsy.\<close>

fun truthy_str :: "string option \<Rightarrow> bool" where
  "truthy_str None = False"
| "truthy_str (Some s) = (s \<noteq> [])"

text \<open>
  \<open>const { status } = body\<close>: destructuring \<open>null\<close> throws a TypeError, an object
  yields the property or \<open>undefined\<close>, any other JSON value has no such property.
\<close>

fun destructure :: "json \<Rightarrow> string \<Rightarrow> string + json option" where
  "destructure JNull k = Inl ''Cannot destructure property of null''"
| "destructure (JObj kvs) k = Inr (map_of kvs k)"
| "destructure v k = Inr None"

text \<open>The top-level field names of a JSON object.\<close>

fun field_names :: "json \<Rightarrow> string list" where
  "field_names (JObj kvs) = map fst kvs"
| "field_names v = []"

subsection \<open>The insertion-ordered \<open>Map\<close> of JavaScript\<close>

text \<open>
  \<open>Map.set\<close> replaces the value of a key that is present, in place, and appends a new
  key at the end; \<open>Map.values()\<close> lists the values in insertion order.
\<close>

type_synonym 'v jsmap = "(string \<times> 'v) list"

definition map_set :: "string \<Rightarrow> 'v \<Rightarrow> 'v jsmap \<Rightarrow> 'v jsmap" where
  "map_set k v m = AList.update k v m"

definition map_get :: "'v jsmap \<Rightarrow> string \<Rightarrow> 'v option" where
  "map_get m k = map_of m k"

definition map_values :: "'v jsmap \<Rightarrow> 'v list" where
  "map_values m = map snd m"

section \<open>The delegated-access store (lib/store.ts)\<close>

record DelegatedAccess =
  da_id :: string
  vaultId :: string
  walletId :: string
  userId :: string
  delegateUserId :: string
  delegateEmail :: string
  publicKey :: string
  delegatedShare :: json
  walletApiKey :: string
  createdAt :: string
  status :: json
  eventId :: "string option"

text \<open>
  The \<open>status\<close> field is declared \<open>'active' | 'revoked' | 'pending'\<close>, but the PATCH
  route stores whatever truthy JSON value the request carries, so the model keeps it a
  JSON value.
\<close>

text \<open>Of the five maps of the store, the one the delegated-access operations use.\<close>

record Store =
  delegatedAccesses :: "DelegatedAccess jsmap"

definition createDelegatedAccess :: "Store \<Rightarrow> DelegatedAccess \<Rightarrow> Store \<times> DelegatedAccess" where
  "createDelegatedAccess s da =
     (s\<lparr>delegatedAccesses := map_set (da_id da) da (delegatedAccesses s)\<rparr>, da)"

definition getDelegatedAccess :: "Store \<Rightarrow> string \<Rightarrow> DelegatedAccess option" where
  "getDelegatedAccess s i = map_get (delegatedAccesses s) i"

definition getAllDelegatedAccesses :: "Store \<Rightarrow> DelegatedAccess list" where
  "getAllDelegatedAccesses s = map_values (delegatedAccesses s)"

text \<open>
  \<open>updates\<close> is a \<open>Partial<DelegatedAccess>\<close>; the only caller passes \<open>{status: ...}\<close>,
  so the partial object is modelled by the one field it can carry here.
\<close>

definition updateDelegatedAccess ::
  "Store \<Rightarrow> string \<Rightarrow> json \<Rightarrow> Store \<times> DelegatedAccess option" where
  "updateDelegatedAccess s i new_status =
     (case map_get (delegatedAccesses s) i of
        None \<Rightarrow> (s, None)
      | Some da \<Rightarrow>
          (let updated = da\<lparr>status := new_status\<rparr>
           in (s\<lparr>delegatedAccesses := map_set i updated (delegatedAccesses s)\<rparr>, Some updated)))"

definition getDelegatedAccessByEventId :: "Store \<Rightarrow> string \<Rightarrow> DelegatedAccess option" where
  "getDelegatedAccessByEventId s e =
     find (\<lambda>da. eventId da = Some e) (map_values (delegatedAccesses s))"

section \<open>The delegated-access routes\<close>

record response =
  http_status :: nat
  body :: json

text \<open>
  The object literal both routes build before \<open>NextResponse.json\<close>. A property whose
  value is \<open>undefined\<close> (a record without \<open>eventId\<close>) is left out by the serialisation.
\<close>

definition sanitized :: "DelegatedAccess \<Rightarrow> json" where
  "sanitized da = JObj (
     [(''id'', JStr (da_id da)),
      (''vaultId'', JStr (vaultId da)),
      (''walletId'', JStr (walletId da)),
      (''userId'', JStr (userId da)),
      (''delegateUserId'', JStr (delegateUserId da)),
      (''delegateEmail'', JStr (delegateEmail da)),
      (''publicKey'', JStr (publicKey da)),
      (''createdAt'', JStr (createdAt da)),
      (''status'', status da)]
     @ (case eventId da of None \<Rightarrow> [] | Some e \<Rightarrow> [(''eventId'', JStr e)]))"

text \<open>GET /api/delegated-accesses, with its three optional query parameters.\<close>

definition filter_param :: "string option \<Rightarrow> (DelegatedAccess \<Rightarrow> string) \<Rightarrow> DelegatedAccess list \<Rightarrow> DelegatedAccess list" where
  "filter_param p field das = (if truthy_str p then filter (\<lambda>da. Some (field da) = p) das else das)"

definition GET_all :: "Store \<Rightarrow> string option \<Rightarrow> string option \<Rightarrow> string option \<Rightarrow> response" where
  "GET_all s q_vaultId q_walletId q_delegateEmail =
     (let das = getAllDelegatedAccesses s;
          das = filter_param q_vaultId vaultId das;
          das = filter_param q_walletId walletId das;
          das = filter_param q_delegateEmail delegateEmail das
      in \<lparr>http_status = 200, body = JArr (map sanitized das)\<rparr>)"

text \<open>GET /api/delegated-accesses/[id].\<close>

definition GET_one :: "Store \<Rightarrow> string \<Rightarrow> response" where
  "GET_one s i =
     (case getDelegatedAccess s i of
        None \<Rightarrow> \<lparr>http_status = 404, body = JObj [(''error'', JStr ''Delegated access not found'')]\<rparr>
      | Some da \<Rightarrow> \<lparr>http_status = 200, body = sanitized da\<rparr>)"

text \<open>
  PATCH /api/delegated-accesses/[id]. The request body is \<open>Inl msg\<close> when
  \<open>request.json()\<close> throws; every exception ends in the 500 response of the
  \<open>catch\<close> block. The route returns the new store and the response.
\<close>

definition failed_update :: "string \<Rightarrow> response" where
  "failed_update msg =
     \<lparr>http_status = 500,
      body = JObj [(''error'', JStr ''Failed to update delegated access''), (''details'', JStr msg)]\<rparr>"

definition PATCH :: "Store \<Rightarrow> string \<Rightarrow> string + json \<Rightarrow> Store \<times> response" where
  "PATCH s i req =
     (case req of
        Inl msg \<Rightarrow> (s, failed_update msg)
      | Inr b \<Rightarrow>
         (case destructure b ''status'' of
            Inl msg \<Rightarrow> (s, failed_update msg)
          | Inr st \<Rightarrow>
             (case getDelegatedAccess s i of
                None \<Rightarrow>
                  (s, \<lparr>http_status = 404,
                       body = JObj [(''error'', JStr ''Delegated access not found'')]\<rparr>)
              | Some da \<Rightarrow>
                 (case updateDelegatedAccess s i (js_or st (status da)) of
                    (s', None) \<Rightarrow>
                      (s', \<lparr>http_status = 500,
                            body = JObj [(''error'', JStr ''Failed to update delegated access'')]\<rparr>)
                  | (s', Some updated) \<Rightarrow>
                      (s', \<lparr>http_status = 200, body = sanitized updated\<rparr>)))))"

text \<open>
  Two stores are related by \<open>frame_rel i\<close> when they hold the same keys in the same
  order, every record under a key other than \<open>i\<close> is the same, and the record
  under \<open>i\<close> is the same in every field but \<open>status\<close>.
\<close>

definition frame_entry ::
  "string \<Rightarrow> string \<times> DelegatedAccess \<Rightarrow> string \<times> DelegatedAccess \<Rightarrow> bool" where
  "frame_entry i p q =
     (fst q = fst p \<and>
      (if fst p = i then (snd q)\<lparr>status := status (snd p)\<rparr> = snd p else snd q = snd p))"

definition frame_rel :: "string \<Rightarrow> DelegatedAccess jsmap \<Rightarrow> DelegatedAccess jsmap \<Rightarrow> bool" where
  "frame_rel i m m' = list_all2 (frame_entry i) m m'"

text \<open>
  Two stores are \<open>low_equal\<close> when they hold the same keys in the same order and
  their records agree on every field but \<open>delegatedShare\<close> and \<open>walletApiKey\<close>.
\<close>

definition low_entry :: "string \<times> DelegatedAccess \<Rightarrow> string \<times> DelegatedAccess \<Rightarrow> bool" where
  "low_entry p q =
     (fst q = fst p \<and>
      (snd q)\<lparr>delegatedShare := delegatedShare (snd p), walletApiKey := walletApiKey (snd p)\<rparr> = snd p)"

definition low_equal :: "Store \<Rightarrow> Store \<Rightarrow> bool" where
  "low_equal s s' = list_all2 low_entry (delegatedAccesses s) (delegatedAccesses s')"

text \<open>Two records agree on everything the routes read: the filters' fields and the sanitised object.\<close>

definition pub_eq :: "DelegatedAccess \<Rightarrow> DelegatedAccess \<Rightarrow> bool" where
  "pub_eq a b = (sanitized b = sanitized a \<and> vaultId b = vaultId a \<and> walletId b = walletId a
                 \<and> delegateEmail b = delegateEmail a)"

definition secret_field :: "string \<Rightarrow> bool" where
  "secret_field k = (k = ''delegatedShare'' \<or> k = ''walletApiKey'')"

text \<open>
  A response body exposes the signing material when it is an object with one of the two
  fields, or an array holding such an object.
\<close>

fun exposes_secret :: "json \<Rightarrow> bool" where
  "exposes_secret (JObj kvs) = list_ex secret_field (map fst kvs)"
| "exposes_secret (JArr xs) = list_ex (\<lambda>x. list_ex secret_field (field_names x)) xs"
| "exposes_secret v = False"

subsection \<open>Materialising a delegation event\<close>

text \<open>
  Modelled from the spec: the webhook route that stores a record for a delegation event
  is not among the sources; only the two store operations it is built from are. The
  spec's \<open>materialize(eventId, decryptedMaterials)\<close>: if a record already exists for
  \<open>eventId\<close>, return it unchanged without re-storing; otherwise store the new record
  under that \<open>eventId\<close>.
\<close>

definition materialize :: "Store \<Rightarrow> string \<Rightarrow> DelegatedAccess \<Rightarrow> Store \<times> DelegatedAccess" where
  "materialize s e da =
     (case getDelegatedAccessByEventId s e of
        Some existing \<Rightarrow> (s, existing)
      | None \<Rightarrow> createDelegatedAccess s (da\<lparr>eventId := Some e\<rparr>))"

text \<open>The records of the store that carry a given \<open>eventId\<close>.\<close>

definition records_of_event :: "Store \<Rightarrow> string \<Rightarrow> DelegatedAccess list" where
  "records_of_event s e = filter (\<lambda>da. eventId da = Some e) (getAllDelegatedAccesses s)"

text \<open>The event ids carried by the records of a map, in order.\<close>

definition ids_of :: "DelegatedAccess jsmap \<Rightarrow> string list" where
  "ids_of m = List.map_filter eventId (map snd m)"

text \<open>
  The store's invariant: its keys are distinct, as in any \<open>Map\<close>, and no two
  records carry the same \<open>eventId\<close> (records without one are not counted).
\<close>

definition event_ids :: "Store \<Rightarrow> string list" where
  "event_ids s = List.map_filter eventId (getAllDelegatedAccesses s)"

definition one_record_per_event :: "Store \<Rightarrow> bool" where
  "one_record_per_event s =
     (distinct (map fst (delegatedAccesses s)) \<and> distinct (event_ids s))"

text \<open>
  The two ways a record enters the store: a delegation event is materialised, or the
  delegate route stores a pending record, which carries no \<open>eventId\<close>
  (\<open>eventId: undefined\<close> in the route).
\<close>

datatype store_op =
    Materialize string DelegatedAccess
  | CreatePending DelegatedAccess

fun apply_op :: "Store \<Rightarrow> store_op \<Rightarrow> Store" where
  "apply_op s (Materialize e da) = fst (materialize s e da)"
| "apply_op s (CreatePending da) = fst (createDelegatedAccess s (da\<lparr>eventId := None\<rparr>))"

definition run_ops :: "Store \<Rightarrow> store_op list \<Rightarrow> Store" where
  "run_ops s ops = foldl apply_op s ops"

section \<open>The delegation service (lib/services/delegationService.ts)\<close>

subsection \<open>Envelopes, webhooks and the Node runtime\<close>

type_synonym bytes = string

record EncryptedPayload =
  alg :: string
  iv :: string
  ct :: string
  tag :: string
  ek :: string
  kid :: "string option"

record DelegationWebhookData =
  wh_chain :: string
  encryptedDelegatedShare :: EncryptedPayload
  encryptedWalletApiKey :: EncryptedPayload
  wh_publicKey :: string
  wh_data_userId :: string
  wh_walletId :: string

record DelegationWebhook =
  messageId :: string
  wh_eventId :: string
  eventName :: string
  timestamp :: string
  webhookId :: string
  wh_userId :: string
  environmentId :: string
  environmentName :: string
  wh_data :: DelegationWebhookData

text \<open>
  \<open>node:crypto\<close>, \<open>Buffer\<close> and \<open>JSON\<close> belong to the runtime, not to the repository:
  they are parameters of the model. A call that can throw returns \<open>Inl\<close> with the
  message of the exception. \<open>'d\<close> is the decipher object: \<open>decipher_update\<close> hands
  back the bytes decrypted so far (before any authentication), \<open>decipher_final\<close>
  checks the GCM tag and throws when it does not verify.
\<close>

record 'd node =
  privateDecrypt :: "string \<Rightarrow> bytes \<Rightarrow> string + bytes"
  createDecipheriv :: "bytes \<Rightarrow> bytes \<Rightarrow> string + 'd"
  setAuthTag :: "'d \<Rightarrow> bytes \<Rightarrow> string + 'd"
  decipher_update :: "'d \<Rightarrow> bytes \<Rightarrow> string + bytes \<times> 'd"
  decipher_final :: "'d \<Rightarrow> string + bytes"
  from_base64url :: "string \<Rightarrow> bytes"
  to_utf8 :: "bytes \<Rightarrow> string"
  JSON_parse :: "string \<Rightarrow> string + json"
  JSON_stringify :: "DelegationWebhook \<Rightarrow> string"

text \<open>\<open>privateKeyPem.replace(/\\n/g, '\n')\<close>: a backslash followed by \<open>n\<close> becomes a line feed.\<close>

fun replace_escaped_newlines :: "string \<Rightarrow> string" where
  "replace_escaped_newlines (a # b # cs) =
     (if a = CHR 0x5C \<and> b = CHR ''n'' then CHR 0x0A # replace_escaped_newlines cs
      else a # replace_escaped_newlines (b # cs))"
| "replace_escaped_newlines cs = cs"

subsection \<open>The service\<close>

text \<open>The stub of the source: it warns that verification is not implemented and accepts.\<close>

definition verifyWebhookSignature :: "string \<Rightarrow> string \<Rightarrow> string \<Rightarrow> bool" where
  "verifyWebhookSignature payload sig webhookSecret = True"

definition decryptAesGcm :: "'d node \<Rightarrow> bytes \<Rightarrow> string \<Rightarrow> string \<Rightarrow> string \<Rightarrow> string + bytes" where
  "decryptAesGcm N encryptedKey ivB64 ctB64 tagB64 =
     (let iv' = from_base64url N ivB64;
          ciphertext = from_base64url N ctB64;
          tag' = from_base64url N tagB64
      in case createDecipheriv N encryptedKey iv' of
           Inl msg \<Rightarrow> Inl msg
         | Inr decipher \<Rightarrow>
            (case setAuthTag N decipher tag' of
               Inl msg \<Rightarrow> Inl msg
             | Inr decipher \<Rightarrow>
                (case decipher_update N decipher ciphertext of
                   Inl msg \<Rightarrow> Inl msg
                 | Inr (chunk, decipher) \<Rightarrow>
                    (case decipher_final N decipher of
                       Inl msg \<Rightarrow> Inl msg
                     | Inr rest \<Rightarrow> Inr (chunk @ rest)))))"

definition rsaOaepDecryptEk :: "'d node \<Rightarrow> string \<Rightarrow> string \<Rightarrow> string + bytes" where
  "rsaOaepDecryptEk N privateKeyPem ekB64 =
     (let normalizedKey = replace_escaped_newlines privateKeyPem
      in case privateDecrypt N normalizedKey (from_base64url N ekB64) of
           Inl msg \<Rightarrow> Inl (''Failed to decrypt content-encryption key: '' @ msg)
         | Inr key \<Rightarrow> Inr key)"

text \<open>The body of the \<open>try\<close> block of \<open>decryptMaterials\<close>.\<close>

definition decryptMaterials_try ::
  "'d node \<Rightarrow> string \<Rightarrow> EncryptedPayload \<Rightarrow> EncryptedPayload \<Rightarrow> string + json \<times> string" where
  "decryptMaterials_try N privateKeyPem share apiKeyEnc =
     (let normalizedPrivateKey = replace_escaped_newlines privateKeyPem
      in case rsaOaepDecryptEk N normalizedPrivateKey (ek share) of
           Inl msg \<Rightarrow> Inl msg
         | Inr shareKey \<Rightarrow>
            (case rsaOaepDecryptEk N normalizedPrivateKey (ek apiKeyEnc) of
               Inl msg \<Rightarrow> Inl msg
             | Inr walletApiKeyKey \<Rightarrow>
                (case decryptAesGcm N shareKey (iv share) (ct share) (tag share) of
                   Inl msg \<Rightarrow> Inl msg
                 | Inr delegatedShareBuffer \<Rightarrow>
                    (case decryptAesGcm N walletApiKeyKey (iv apiKeyEnc) (ct apiKeyEnc) (tag apiKeyEnc) of
                       Inl msg \<Rightarrow> Inl msg
                     | Inr walletApiKeyBuffer \<Rightarrow>
                        (case JSON_parse N (to_utf8 N delegatedShareBuffer) of
                           Inl msg \<Rightarrow> Inl msg
                         | Inr share_json \<Rightarrow> Inr (share_json, to_utf8 N walletApiKeyBuffer))))))"

definition decryptMaterials ::
  "'d node \<Rightarrow> string \<Rightarrow> EncryptedPayload \<Rightarrow> EncryptedPayload \<Rightarrow> string + json \<times> string" where
  "decryptMaterials N privateKeyPem share apiKeyEnc =
     (case decryptMaterials_try N privateKeyPem share apiKeyEnc of
        Inl msg \<Rightarrow> Inl (''Failed to decrypt delegation materials: '' @ msg)
      | Inr materials \<Rightarrow> Inr materials)"

text \<open>
  The GCM tag of an envelope does not verify under a key: the decipher was set up,
  \<open>decipher_update\<close> handed back bytes, and \<open>decipher_final\<close> threw. The value is the
  message of that exception.
\<close>

definition tag_failure :: "'d node \<Rightarrow> bytes \<Rightarrow> EncryptedPayload \<Rightarrow> string option" where
  "tag_failure N key e =
     (case createDecipheriv N key (from_base64url N (iv e)) of
        Inl msg \<Rightarrow> None
      | Inr d0 \<Rightarrow>
         (case setAuthTag N d0 (from_base64url N (tag e)) of
            Inl msg \<Rightarrow> None
          | Inr d1 \<Rightarrow>
             (case decipher_update N d1 (from_base64url N (ct e)) of
                Inl msg \<Rightarrow> None
              | Inr (chunk, d2) \<Rightarrow>
                 (case decipher_final N d2 of
                    Inl msg \<Rightarrow> Some msg
                  | Inr rest \<Rightarrow> None))))"

text \<open>
  The calls \<open>processDelegationWebhook\<close> makes on the service, in order: the pipeline
  returns them with its result, so that what ran before what can be stated.
\<close>

datatype service_call =
    VerifySignature string string string
  | DecryptMaterials EncryptedPayload EncryptedPayload

record processed_webhook =
  out_userId :: string
  out_walletId :: string
  out_publicKey :: string
  out_delegatedShare :: json
  out_walletApiKey :: string
  out_eventId :: string

text \<open>
  The pipeline over any verifier \<open>V\<close>; the source's is \<open>verifyWebhookSignature\<close>.
  The signature handed to the verifier is the empty string (the source has not yet
  taken it from the headers), and the payload is the webhook serialised again.
\<close>

definition processDelegationWebhook_with ::
  "(string \<Rightarrow> string \<Rightarrow> string \<Rightarrow> bool) \<Rightarrow> 'd node \<Rightarrow> DelegationWebhook \<Rightarrow> string \<Rightarrow>
   string option \<Rightarrow> service_call list \<times> (string + processed_webhook)" where
  "processDelegationWebhook_with V N webhook privateKeyPem webhookSecret =
     (let payload = JSON_stringify N webhook;
          checked = (if truthy_str webhookSecret
                     then [VerifySignature payload [] (the webhookSecret)] else []);
          share = encryptedDelegatedShare (wh_data webhook);
          apiKeyEnc = encryptedWalletApiKey (wh_data webhook)
      in if truthy_str webhookSecret \<and> \<not> V payload [] (the webhookSecret)
         then (checked, Inl ''Invalid webhook signature'')
         else (checked @ [DecryptMaterials share apiKeyEnc],
               case decryptMaterials N privateKeyPem share apiKeyEnc of
                 Inl msg \<Rightarrow> Inl msg
               | Inr (share_json, apiKey) \<Rightarrow>
                   Inr \<lparr>out_userId = wh_data_userId (wh_data webhook),
                        out_walletId = wh_walletId (wh_data webhook),
                        out_publicKey = wh_publicKey (wh_data webhook),
                        out_delegatedShare = share_json,
                        out_walletApiKey = apiKey,
                        out_eventId = wh_eventId webhook\<rparr>))"

definition processDelegationWebhook ::
  "'d node \<Rightarrow> DelegationWebhook \<Rightarrow> string \<Rightarrow> string option \<Rightarrow>
   service_call list \<times> (string + processed_webhook)" where
  "processDelegationWebhook = processDelegationWebhook_with verifyWebhookSignature"

text \<open>Whether a run of the pipeline verified a signature, and whether it decrypted.\<close>

fun is_verify :: "service_call \<Rightarrow> bool" where
  "is_verify (VerifySignature p g k) = True"
| "is_verify c = False"

fun is_decrypt :: "service_call \<Rightarrow> bool" where
  "is_decrypt (DecryptMaterials a b) = True"
| "is_decrypt c = False"


section \<open>Triggering a delegation (lib/services/dynamicLabsService.ts)\<close>

text \<open>The four variables of \<open>process.env\<close> the function reads; an unset one is \<open>None\<close>.\<close>

record process_env =
  NEXT_PUBLIC_DYNAMIC_ENVIRONMENT_ID :: "string option"
  NEXT_PUBLIC_DYNAMIC_AUTH_TOKEN :: "string option"
  NEXT_PUBLIC_DYNAMIC_DELEGATION_WEBHOOK_URL :: "string option"
  NEXT_PUBLIC_APP_URL :: "string option"

record DynamicCredentials =
  cred_environmentId :: string
  authToken :: string

definition getCredentials :: "process_env \<Rightarrow> DynamicCredentials option" where
  "getCredentials env =
     (if \<not> truthy_str (NEXT_PUBLIC_DYNAMIC_ENVIRONMENT_ID env)
         \<or> \<not> truthy_str (NEXT_PUBLIC_DYNAMIC_AUTH_TOKEN env)
      then None
      else Some \<lparr>cred_environmentId = the (NEXT_PUBLIC_DYNAMIC_ENVIRONMENT_ID env),
                 authToken = the (NEXT_PUBLIC_DYNAMIC_AUTH_TOKEN env)\<rparr>)"

text \<open>
  \<open>fetch\<close> is a parameter. It either throws (a network error) or answers with a status,
  what \<open>response.text()\<close> gives and what \<open>response.json()\<close> gives, each of which may
  throw in turn.
\<close>

record fetch_request =
  req_authorization :: string
  req_body :: json

datatype fetch_outcome =
    NetworkError string
  | HttpResponse nat "string + string" "string + json"

type_synonym fetch = "string \<Rightarrow> fetch_request \<Rightarrow> fetch_outcome"

definition response_ok :: "nat \<Rightarrow> bool" where
  "response_ok st = (200 \<le> st \<and> st \<le> 299)"

record trigger_result =
  success :: bool
  message :: string
  delegationId :: "json option"
  requiresClientSide :: "bool option"

text \<open>\<open>String.toLowerCase\<close> on the ASCII letters.\<close>

definition to_lower_char :: "char \<Rightarrow> char" where
  "to_lower_char c =
     (let n = (of_char c :: nat) in if 65 \<le> n \<and> n \<le> 90 then char_of (n + 32) else c)"

definition toLowerCase :: "string \<Rightarrow> string" where
  "toLowerCase s = map to_lower_char s"

text \<open>\<open>a.b\<close> on a value that may be \<open>undefined\<close>: reading a property of \<open>null\<close> or \<open>undefined\<close> throws.\<close>

fun property :: "json option \<Rightarrow> string \<Rightarrow> string + json option" where
  "property None k = Inl ''Cannot read properties of undefined''"
| "property (Some v) k = destructure v k"

text \<open>\<open>a?.b\<close>: \<open>undefined\<close> when \<open>a\<close> is \<open>null\<close> or \<open>undefined\<close>.\<close>

fun optional_property :: "json option \<Rightarrow> string \<Rightarrow> json option" where
  "optional_property (Some (JObj kvs)) k = map_of kvs k"
| "optional_property v k = None"

text \<open>\<open>a || b\<close> where both sides may be \<open>undefined\<close>.\<close>

fun js_or_undefined :: "json option \<Rightarrow> json option \<Rightarrow> json option" where
  "js_or_undefined (Some a) b = (if truthy a then Some a else b)"
| "js_or_undefined None b = b"

text \<open>\<open>result.delegationId || result.id || result.delegation?.id || result.data?.id\<close>.\<close>

definition delegationId_of :: "json \<Rightarrow> string + json option" where
  "delegationId_of result =
     (case destructure result ''delegationId'' of
        Inl msg \<Rightarrow> Inl msg
      | Inr a \<Rightarrow>
          Inr (js_or_undefined a
                (js_or_undefined (optional_property (Some result) ''id'')
                  (js_or_undefined
                    (optional_property (optional_property (Some result) ''delegation'') ''id'')
                    (optional_property (optional_property (Some result) ''data'') ''id'')))))"

definition string_or :: "string option \<Rightarrow> string option \<Rightarrow> string option" where
  "string_or a b = (if truthy_str a then a else b)"

definition effectiveWebhookUrl :: "process_env \<Rightarrow> string option \<Rightarrow> string option" where
  "effectiveWebhookUrl env webhookUrl =
     string_or webhookUrl
       (string_or (NEXT_PUBLIC_DYNAMIC_DELEGATION_WEBHOOK_URL env)
          (if truthy_str (NEXT_PUBLIC_APP_URL env)
           then Some (the (NEXT_PUBLIC_APP_URL env) @ ''/api/webhooks/delegation'')
           else None))"

definition endpoints :: "DynamicCredentials \<Rightarrow> string \<Rightarrow> string list" where
  "endpoints credentials wallet =
     [''https://app.dynamic.xyz/api/v0/environments/'' @ cred_environmentId credentials
        @ ''/wallets/'' @ wallet @ ''/delegate'',
      ''https://app.dynamic.xyz/api/v0/environments/'' @ cred_environmentId credentials
        @ ''/waas/wallets/'' @ wallet @ ''/delegate'',
      ''https://app.dynamic.xyz/api/v0/environments/'' @ cred_environmentId credentials
        @ ''/users/'' @ wallet @ ''/delegate'',
      ''https://app.dynamicauth.com/api/v0/environments/'' @ cred_environmentId credentials
        @ ''/wallets/'' @ wallet @ ''/delegate'']"

definition requestBody :: "string \<Rightarrow> string option \<Rightarrow> json" where
  "requestBody email hook =
     JObj ([(''delegateEmail'', JStr (toLowerCase email))]
           @ (if truthy_str hook then [(''webhookUrl'', JStr (the hook))] else []))"

text \<open>
  The loop over the endpoints. Every exception raised inside the \<open>try\<close> of one
  iteration, the authentication error of the source included, is caught by the
  \<open>catch\<close> of that iteration, which goes on to the next endpoint. \<open>None\<close>: the loop
  ran to its end without returning.
\<close>

fun try_endpoints :: "fetch \<Rightarrow> fetch_request \<Rightarrow> string list \<Rightarrow> trigger_result option" where
  "try_endpoints F rq [] = None"
| "try_endpoints F rq (apiUrl # rest) =
     (case F apiUrl rq of
        NetworkError msg \<Rightarrow> try_endpoints F rq rest
      | HttpResponse st txt js \<Rightarrow>
          if response_ok st then
            (case js of
               Inl msg \<Rightarrow> try_endpoints F rq rest
             | Inr result \<Rightarrow>
                (case delegationId_of result of
                   Inl msg \<Rightarrow> try_endpoints F rq rest
                 | Inr did \<Rightarrow>
                     Some \<lparr>success = True,
                           message = ''Delegation triggered successfully via server-side API'',
                           delegationId = did,
                           requiresClientSide = None\<rparr>))
          else
            (case txt of
               Inl msg \<Rightarrow> try_endpoints F rq rest
             | Inr errorText \<Rightarrow>
                 if st = 404 then try_endpoints F rq rest
                 else if st = 401 \<or> st = 403 then try_endpoints F rq rest
                 else try_endpoints F rq rest))"

definition triggerDelegation ::
  "process_env \<Rightarrow> fetch \<Rightarrow> string \<Rightarrow> string \<Rightarrow> string option \<Rightarrow> string + trigger_result" where
  "triggerDelegation env F wallet email webhookUrl =
     (case getCredentials env of
        None \<Rightarrow>
          Inl ''Environment ID and AuthToken are required. Please set DYNAMIC_ENVIRONMENT_ID and DYNAMIC_AUTH_TOKEN in .env file.''
      | Some credentials \<Rightarrow>
          (let rq = \<lparr>req_authorization = ''Bearer '' @ authToken credentials,
                     req_body = requestBody email (effectiveWebhookUrl env webhookUrl)\<rparr>
           in case try_endpoints F rq (endpoints credentials wallet) of
                Some r \<Rightarrow> Inr r
              | None \<Rightarrow>
                  Inr \<lparr>success = False,
                       message = ''Delegation API endpoint not available. Delegation must be triggered via client-side SDK using useWalletDelegation hook.'',
                       delegationId = None,
                       requiresClientSide = Some True\<rparr>))"

text \<open>Every endpoint the call would try answers 404.\<close>

fun answers_404 :: "fetch_outcome \<Rightarrow> bool" where
  "answers_404 (HttpResponse st txt js) = (st = 404)"
| "answers_404 (NetworkError msg) = False"

definition all_404 :: "process_env \<Rightarrow> fetch \<Rightarrow> string \<Rightarrow> string \<Rightarrow> string option \<Rightarrow> bool" where
  "all_404 env F wallet email webhookUrl =
     (case getCredentials env of
        None \<Rightarrow> False
      | Some credentials \<Rightarrow>
          list_all
            (\<lambda>apiUrl. answers_404
               (F apiUrl \<lparr>req_authorization = ''Bearer '' @ authToken credentials,
                          req_body = requestBody email (effectiveWebhookUrl env webhookUrl)\<rparr>))
            (endpoints credentials wallet))"


section \<open>Pending transactions (the PendingTransactions component)\<close>

subsection \<open>Address normalisation\<close>

definition to_upper_char :: "char \<Rightarrow> char" where
  "to_upper_char c =
     (let n = (of_char c :: nat) in if 97 \<le> n \<and> n \<le> 122 then char_of (n - 32) else c)"

text \<open>An upper-case ASCII letter.\<close>

definition is_upper :: "char \<Rightarrow> bool" where
  "is_upper c = (65 \<le> (of_char c :: nat) \<and> (of_char c :: nat) \<le> 90)"

definition is_hex_digit :: "char \<Rightarrow> bool" where
  "is_hex_digit c =
     (let n = (of_char c :: nat)
      in (48 \<le> n \<and> n \<le> 57) \<or> (65 \<le> n \<and> n \<le> 70) \<or> (97 \<le> n \<and> n \<le> 102))"

text \<open>A well-formed 20-byte hex identifier: \<open>0x\<close> and forty hexadecimal digits.\<close>

definition well_formed_address :: "string \<Rightarrow> bool" where
  "well_formed_address raw =
     (length raw = 42 \<and> take 2 raw = ''0x'' \<and> list_all is_hex_digit (drop 2 raw))"

text \<open>
  The checksum decides, from the lower-case digits, which positions are written in
  upper case. The digest behind it is a parameter \<open>ck\<close>: \<open>ck digits i\<close> tells whether
  position \<open>i\<close> is capitalised.
\<close>

type_synonym checksum = "string \<Rightarrow> nat \<Rightarrow> bool"

fun apply_checksum :: "(nat \<Rightarrow> bool) \<Rightarrow> nat \<Rightarrow> string \<Rightarrow> string" where
  "apply_checksum up i [] = []"
| "apply_checksum up i (c # cs) =
     (if up i then to_upper_char c else c) # apply_checksum up (Suc i) cs"

text \<open>
  Modelled from the spec: \<open>getAddress\<close> is imported from a library and is not among the
  sources. The spec's \<open>normalize(raw)\<close>: fails with \<open>InvalidAddress\<close> if \<open>raw\<close> is not
  a well-formed 20-byte hex identifier, and otherwise gives the case-normalized
  (checksummed) form of the address.
\<close>

definition getAddress :: "checksum \<Rightarrow> string \<Rightarrow> string + string" where
  "getAddress ck raw =
     (if well_formed_address raw
      then (let digits = toLowerCase (drop 2 raw)
            in Inr (''0x'' @ apply_checksum (ck digits) 0 digits))
      else Inl ''InvalidAddress'')"

text \<open>The numeric value of an address: its digits read in base sixteen.\<close>

definition hex_digit_value :: "char \<Rightarrow> nat" where
  "hex_digit_value c =
     (let n = (of_char c :: nat)
      in if 48 \<le> n \<and> n \<le> 57 then n - 48
         else if 65 \<le> n \<and> n \<le> 70 then n - 55
         else if 97 \<le> n \<and> n \<le> 102 then n - 87
         else 0)"

definition address_value :: "string \<Rightarrow> nat" where
  "address_value a = foldl (\<lambda>acc c. 16 * acc + hex_digit_value c) 0 (drop 2 a)"

subsection \<open>Transactions, the component's state and its collaborators\<close>

record Confirmation =
  owner :: string
  signature :: "string option"

record SafeTransaction =
  safeTxHash :: string
  tx_to :: string
  tx_value :: "string option"
  tx_data :: "string option"
  confirmations :: "Confirmation list option"
  isExecuted :: bool

text \<open>
  The texts the component shows. \<open>Thrown msg\<close> is the message of a caught exception;
  \<open>NeedSignatures t n\<close> stands for "Need t signatures, but only have n".
\<close>

datatype notice =
    Blank
  | ConnectWalletFirst
  | NotAnOwner
  | AlreadySigned
  | NeedSignatures nat nat
  | Thrown string
  | ConfirmedReloading
  | ExecutedSuccessfully string

record ui_state =
  pendingTxs :: "SafeTransaction list"
  isSigning :: "string option"
  error_notice :: notice
  success_notice :: notice

text \<open>The connected wallet: the address of \<open>viemAccount\<close>, if any, and whether there is a wallet client.\<close>

record wallet_ctx =
  viemAccount :: "string option"
  walletClient :: bool

definition connected :: "wallet_ctx \<Rightarrow> string option" where
  "connected w = (if walletClient w then viemAccount w else None)"

text \<open>
  The relay helpers and the Safe SDK are parameters. \<open>'t\<close> is the SDK's transaction
  object. \<open>getSafeSdk\<close> stands for \<open>createParaProvider\<close> followed by \<open>getSafeSdk\<close>.
  \<open>signTransaction\<close> gives the entries of the signed transaction's signature map, each
  with the signature text the component reads from it. A call that can throw returns
  \<open>Inl\<close> with the message of the exception.
\<close>

record 't safe_env =
  getPendingTransactions :: "string \<Rightarrow> string + SafeTransaction list option"
  getTx :: "string \<Rightarrow> string + SafeTransaction"
  confirmTx :: "string \<Rightarrow> string \<Rightarrow> string + unit"
  getSafeSdk :: "string \<Rightarrow> string + unit"
  createTransaction :: "string \<Rightarrow> string \<Rightarrow> string \<Rightarrow> string + 't"
  getTransactionHash :: "'t \<Rightarrow> string + string"
  signTransaction :: "'t \<Rightarrow> string + (string \<times> string) list"
  addSignature :: "'t \<Rightarrow> string \<Rightarrow> string \<Rightarrow> 't"
  executeTransaction :: "'t \<Rightarrow> string + string"

definition confirmations_of :: "SafeTransaction \<Rightarrow> Confirmation list" where
  "confirmations_of tx = (case confirmations tx of None \<Rightarrow> [] | Some cs \<Rightarrow> cs)"

definition string_default :: "string option \<Rightarrow> string \<Rightarrow> string" where
  "string_default a d = (if truthy_str a then the a else d)"

definition loadPendingTransactions :: "'t safe_env \<Rightarrow> string \<Rightarrow> ui_state \<Rightarrow> ui_state" where
  "loadPendingTransactions E safeAddress ui =
     (case getPendingTransactions E safeAddress of
        Inl msg \<Rightarrow> ui\<lparr>error_notice := Thrown msg, pendingTxs := []\<rparr>
      | Inr None \<Rightarrow> ui\<lparr>error_notice := Blank, pendingTxs := []\<rparr>
      | Inr (Some results) \<Rightarrow>
          ui\<lparr>error_notice := Blank, pendingTxs := filter (\<lambda>tx. \<not> isExecuted tx) results\<rparr>)"

subsection \<open>Signing\<close>

text \<open>\<open>confirmations.some(conf => getAddress(conf.owner).toLowerCase() === currentAddress.toLowerCase())\<close>.\<close>

fun hasAlreadySigned :: "checksum \<Rightarrow> string \<Rightarrow> Confirmation list \<Rightarrow> string + bool" where
  "hasAlreadySigned ck currentAddress [] = Inr False"
| "hasAlreadySigned ck currentAddress (conf # confs) =
     (case getAddress ck (owner conf) of
        Inl msg \<Rightarrow> Inl msg
      | Inr a \<Rightarrow>
          if toLowerCase a = toLowerCase currentAddress then Inr True
          else hasAlreadySigned ck currentAddress confs)"

text \<open>The first entry of the signature map with a non-empty signature.\<close>

fun extract_signature :: "(string \<times> string) list \<Rightarrow> string" where
  "extract_signature [] = []"
| "extract_signature ((addr, sigValue) # entries) =
     (if sigValue \<noteq> [] then sigValue else extract_signature entries)"

text \<open>
  The \<open>try\<close> block of \<open>handleSignTransaction\<close>: its outcome, and the confirmation
  handed to the relay, if the block got that far.
\<close>

definition sign_try ::
  "'t safe_env \<Rightarrow> string \<Rightarrow> SafeTransaction \<Rightarrow> (string + unit) \<times> (string \<times> string) option" where
  "sign_try E signer tx =
     (case getSafeSdk E signer of
        Inl msg \<Rightarrow> (Inl msg, None)
      | Inr u \<Rightarrow>
         (case createTransaction E (tx_to tx) (string_default (tx_value tx) ''0'')
                 (string_default (tx_data tx) ''0x'') of
            Inl msg \<Rightarrow> (Inl msg, None)
          | Inr safeTransaction \<Rightarrow>
             (case getTransactionHash E safeTransaction of
                Inl msg \<Rightarrow> (Inl msg, None)
              | Inr recreatedHash \<Rightarrow>
                 (case signTransaction E safeTransaction of
                    Inl msg \<Rightarrow> (Inl msg, None)
                  | Inr entries \<Rightarrow>
                     (let sg = extract_signature entries
                      in if sg = []
                         then (Inl ''Failed to extract signature from signed transaction'', None)
                         else (confirmTx E (safeTxHash tx) sg, Some (safeTxHash tx, sg)))))))"

text \<open>
  \<open>handleSignTransaction\<close>. \<open>Inl msg\<close>: an exception left the handler (the address of
  the wallet or of a confirmation is malformed; these calls are outside the \<open>try\<close>).
  Otherwise the new state and the confirmation handed to the relay, if any.
\<close>

definition handleSignTransaction ::
  "'t safe_env \<Rightarrow> checksum \<Rightarrow> wallet_ctx \<Rightarrow> string list \<Rightarrow> string \<Rightarrow> ui_state \<Rightarrow> SafeTransaction \<Rightarrow>
   string + ui_state \<times> (string \<times> string) option" where
  "handleSignTransaction E ck w owners safeAddress ui tx =
     (case connected w of
        None \<Rightarrow> Inr (ui\<lparr>error_notice := ConnectWalletFirst\<rparr>, None)
      | Some account \<Rightarrow>
         (case getAddress ck account of
            Inl msg \<Rightarrow> Inl msg
          | Inr currentAddress \<Rightarrow>
              if \<not> List.member owners currentAddress
              then Inr (ui\<lparr>error_notice := NotAnOwner\<rparr>, None)
              else
               (case hasAlreadySigned ck currentAddress (confirmations_of tx) of
                  Inl msg \<Rightarrow> Inl msg
                | Inr True \<Rightarrow> Inr (ui\<lparr>error_notice := AlreadySigned\<rparr>, None)
                | Inr False \<Rightarrow>
                   (let ui1 = ui\<lparr>isSigning := Some (safeTxHash tx),
                                  error_notice := Blank, success_notice := Blank\<rparr>
                    in case sign_try E account tx of
                         (Inl msg, sent) \<Rightarrow>
                           Inr (ui1\<lparr>error_notice := Thrown msg, isSigning := None\<rparr>, sent)
                       | (Inr u, sent) \<Rightarrow>
                           Inr ((loadPendingTransactions E safeAddress
                                   (ui1\<lparr>success_notice := ConfirmedReloading\<rparr>))
                                 \<lparr>isSigning := None\<rparr>, sent)))))"

subsection \<open>Executing\<close>

text \<open>The loop that adds the collected signatures to the transaction, in the order of the list.\<close>

fun add_signatures :: "'t safe_env \<Rightarrow> checksum \<Rightarrow> Confirmation list \<Rightarrow> 't \<Rightarrow> string + 't" where
  "add_signatures E ck [] safeTransaction = Inr safeTransaction"
| "add_signatures E ck (confirmation # rest) safeTransaction =
     (case getAddress ck (owner confirmation) of
        Inl msg \<Rightarrow> Inl msg
      | Inr ownerAddress \<Rightarrow>
          if truthy_str (signature confirmation)
          then add_signatures E ck rest
                 (addSignature E safeTransaction ownerAddress (the (signature confirmation)))
          else add_signatures E ck rest safeTransaction)"

text \<open>
  The \<open>try\<close> block of \<open>handleExecuteTransaction\<close>: its outcome (the hash of the
  executed transaction), and the transaction handed to \<open>executeTransaction\<close>, if the
  block got that far.
\<close>

definition execute_try ::
  "'t safe_env \<Rightarrow> checksum \<Rightarrow> string \<Rightarrow> SafeTransaction \<Rightarrow> (string + string) \<times> 't option" where
  "execute_try E ck signer tx =
     (case getTx E (safeTxHash tx) of
        Inl msg \<Rightarrow> (Inl msg, None)
      | Inr safeTransactionData \<Rightarrow>
         (case getSafeSdk E signer of
            Inl msg \<Rightarrow> (Inl msg, None)
          | Inr u \<Rightarrow>
             (case createTransaction E (tx_to safeTransactionData)
                     (string_default (tx_value safeTransactionData) ''0'')
                     (string_default (tx_data safeTransactionData) ''0x'') of
                Inl msg \<Rightarrow> (Inl msg, None)
              | Inr safeTransaction \<Rightarrow>
                 (case add_signatures E ck (confirmations_of tx) safeTransaction of
                    Inl msg \<Rightarrow> (Inl msg, None)
                  | Inr signed \<Rightarrow> (executeTransaction E signed, Some signed)))))"

definition handleExecuteTransaction ::
  "'t safe_env \<Rightarrow> checksum \<Rightarrow> wallet_ctx \<Rightarrow> nat \<Rightarrow> string \<Rightarrow> ui_state \<Rightarrow> SafeTransaction \<Rightarrow>
   ui_state \<times> 't option" where
  "handleExecuteTransaction E ck w threshold safeAddress ui tx =
     (case connected w of
        None \<Rightarrow> (ui\<lparr>error_notice := ConnectWalletFirst\<rparr>, None)
      | Some account \<Rightarrow>
          if length (confirmations_of tx) < threshold
          then (ui\<lparr>error_notice := NeedSignatures threshold (length (confirmations_of tx))\<rparr>, None)
          else
           (let ui1 = ui\<lparr>isSigning := Some (safeTxHash tx),
                          error_notice := Blank, success_notice := Blank\<rparr>
            in case execute_try E ck account tx of
                 (Inl msg, sent) \<Rightarrow> (ui1\<lparr>error_notice := Thrown msg, isSigning := None\<rparr>, sent)
               | (Inr h, sent) \<Rightarrow>
                   ((loadPendingTransactions E safeAddress
                       (ui1\<lparr>success_notice := ExecutedSuccessfully h\<rparr>))
                     \<lparr>isSigning := None\<rparr>, sent)))"


subsection \<open>Runs of confirmation attempts\<close>

text \<open>Two raw addresses name the same owner when their normalised forms agree, compared in lower case.\<close>

definition same_owner :: "checksum \<Rightarrow> string \<Rightarrow> string \<Rightarrow> bool" where
  "same_owner ck a b =
     (case (getAddress ck a, getAddress ck b) of
        (Inr x, Inr y) \<Rightarrow> toLowerCase x = toLowerCase y
      | _ \<Rightarrow> False)"

definition confirmations_by :: "checksum \<Rightarrow> string \<Rightarrow> Confirmation list \<Rightarrow> Confirmation list" where
  "confirmations_by ck a confs = filter (\<lambda>c. same_owner ck a (owner c)) confs"

text \<open>
  Modelled from the spec: the relay that keeps the confirmations is a collaborator. Its
  \<open>Confirm\<close> takes the identity hash and a signature; when it accepts the submission
  (\<open>confirmTx\<close> returns), the signing owner has a confirmation with that signature in the
  transaction's list, which the component reads again before the next attempt. No
  rejection of duplicates by the relay is assumed here.

  One attempt: the owner with wallet \<open>account\<close> presses the button on the transaction as
  the relay lists it now.
\<close>

definition confirm_attempt ::
  "checksum \<Rightarrow> string \<Rightarrow> SafeTransaction \<Rightarrow> ui_state \<times> Confirmation list \<Rightarrow>
   't safe_env \<times> string list \<times> string \<Rightarrow> ui_state \<times> Confirmation list" where
  "confirm_attempt ck safeAddress tx st attempt =
     (case (st, attempt) of ((ui, confs), (E, owners, account)) \<Rightarrow>
        (case handleSignTransaction E ck \<lparr>viemAccount = Some account, walletClient = True\<rparr>
                owners safeAddress ui (tx\<lparr>confirmations := Some confs\<rparr>) of
           Inl msg \<Rightarrow> (ui, confs)
         | Inr (ui', None) \<Rightarrow> (ui', confs)
         | Inr (ui', Some (h, sg)) \<Rightarrow>
             (case confirmTx E h sg of
                Inl msg \<Rightarrow> (ui', confs)
              | Inr u \<Rightarrow> (ui', confs @ [\<lparr>owner = account, signature = Some sg\<rparr>]))))"

definition confirm_attempts ::
  "checksum \<Rightarrow> string \<Rightarrow> SafeTransaction \<Rightarrow> ui_state \<times> Confirmation list \<Rightarrow>
   ('t safe_env \<times> string list \<times> string) list \<Rightarrow> ui_state \<times> Confirmation list" where
  "confirm_attempts ck safeAddress tx st attempts = foldl (confirm_attempt ck safeAddress tx) st attempts"

text \<open>
  The signatures the execution loop adds, in order: one per confirmation with a
  non-empty signature, under the normalised address of its owner.
\<close>

definition collected_signatures :: "checksum \<Rightarrow> Confirmation list \<Rightarrow> (string \<times> string) list" where
  "collected_signatures ck confs =
     map (\<lambda>c. (projr (getAddress ck (owner c)), the (signature c)))
       (filter (\<lambda>c. truthy_str (signature c)) confs)"

definition ascending_by_owner :: "(string \<times> string) list \<Rightarrow> bool" where
  "ascending_by_owner sigs = sorted_wrt (<) (map (\<lambda>p. address_value (fst p)) sigs)"

section \<open>Concrete inputs\<close>

text \<open>A store with one record, created by a delegation event, for the examples below.\<close>

definition access1 :: DelegatedAccess where
  "access1 =
     \<lparr>da_id = ''da-1'', vaultId = ''vault-1'', walletId = ''wallet-1'', userId = ''user-1'',
      delegateUserId = ''user-2'', delegateEmail = ''delegate@example.org'',
      publicKey = ''0x04ab'', delegatedShare = JObj [(''share'', JStr ''secret-share'')],
      walletApiKey = ''secret-api-key'', createdAt = ''2025-01-01T00:00:00.000Z'',
      status = JStr ''active'', eventId = Some ''evt-1''\<rparr>"

definition store1 :: Store where
  "store1 = \<lparr>delegatedAccesses = [(''da-1'', access1)]\<rparr>"

text \<open>The same store with other signing material in its record.\<close>

definition store1' :: Store where
  "store1' = \<lparr>delegatedAccesses =
     [(''da-1'', access1\<lparr>delegatedShare := JNull, walletApiKey := ''other-key''\<rparr>)]\<rparr>"

text \<open>An environment with credentials, and a \<open>fetch\<close> that answers 404 to everything.\<close>

definition env1 :: process_env where
  "env1 = \<lparr>NEXT_PUBLIC_DYNAMIC_ENVIRONMENT_ID = Some ''env-1'',
            NEXT_PUBLIC_DYNAMIC_AUTH_TOKEN = Some ''token-1'',
            NEXT_PUBLIC_DYNAMIC_DELEGATION_WEBHOOK_URL = None,
            NEXT_PUBLIC_APP_URL = None\<rparr>"

definition fetch_404 :: fetch where
  "fetch_404 apiUrl rq = HttpResponse 404 (Inr ''Not Found'') (Inl ''Unexpected token'')"

text \<open>
  A toy runtime for the examples: the wrapped key is the key itself and unwraps under
  the one private key \<open>PEM\<close>; the cipher is the identity; a tag verifies when it equals
  the key. The decipher object holds the key and the tag.
\<close>

definition toy_node :: "(bytes \<times> bytes) node" where
  "toy_node =
     \<lparr>privateDecrypt = (\<lambda>pem c. if pem = ''PEM'' then Inr c else Inl ''oaep decoding error''),
      createDecipheriv = (\<lambda>key nonce. Inr (key, [])),
      setAuthTag = (\<lambda>d t. Inr (fst d, t)),
      decipher_update = (\<lambda>d c. Inr (c, d)),
      decipher_final = (\<lambda>d. if snd d = fst d then Inr []
                            else Inl ''Unsupported state or unable to authenticate data''),
      from_base64url = (\<lambda>s. s),
      to_utf8 = (\<lambda>b. b),
      JSON_parse = (\<lambda>s. if s = ''null'' then Inr JNull else Inl ''Unexpected token''),
      JSON_stringify = (\<lambda>w. wh_eventId w)\<rparr>"

definition good_share :: EncryptedPayload where
  "good_share = \<lparr>alg = ''HYBRID-RSA-AES-256'', iv = ''iv1'', ct = ''null'', tag = ''k1'', ek = ''k1'', kid = None\<rparr>"

definition good_apiKey :: EncryptedPayload where
  "good_apiKey = \<lparr>alg = ''HYBRID-RSA-AES-256'', iv = ''iv2'', ct = ''api-key'', tag = ''k2'', ek = ''k2'', kid = None\<rparr>"

definition forged_apiKey :: EncryptedPayload where
  "forged_apiKey = good_apiKey\<lparr>ct := ''forged-key'', tag := ''bad''\<rparr>"

text \<open>A delegation webhook carrying the two good envelopes.\<close>

definition webhook1 :: DelegationWebhook where
  "webhook1 =
     \<lparr>messageId = ''msg-1'', wh_eventId = ''evt-1'', eventName = ''wallet.delegation.created'',
      timestamp = ''2025-01-01T00:00:00.000Z'', webhookId = ''hook-1'', wh_userId = ''user-1'',
      environmentId = ''env-1'', environmentName = ''sandbox'',
      wh_data = \<lparr>wh_chain = ''EVM'', encryptedDelegatedShare = good_share,
                 encryptedWalletApiKey = good_apiKey, wh_publicKey = ''0x04ab'',
                 wh_data_userId = ''user-1'', wh_walletId = ''wallet-1''\<rparr>\<rparr>"

text \<open>A verifier that rejects every signature.\<close>

definition reject_all :: "string \<Rightarrow> string \<Rightarrow> string \<Rightarrow> bool" where
  "reject_all payload sig webhookSecret = False"

text \<open>A checksum for the examples: the letters at even positions are capitalised.\<close>

definition even_positions :: checksum where
  "even_positions digits i = even i"

text \<open>
  Collaborators for the examples. The SDK's transaction object is the list of the
  signatures added so far; relay and SDK accept everything.
\<close>

definition owner_A :: string where
  "owner_A = ''0x00000000000000000000000000000000000000a1''"

definition owner_B :: string where
  "owner_B = ''0x00000000000000000000000000000000000000b2''"

definition tx_BA :: SafeTransaction where
  "tx_BA =
     \<lparr>safeTxHash = ''0xhash'', tx_to = ''0x00000000000000000000000000000000000000c3'',
      tx_value = Some ''1'', tx_data = None,
      confirmations = Some [\<lparr>owner = owner_B, signature = Some ''sig-B''\<rparr>,
                            \<lparr>owner = owner_A, signature = Some ''sig-A''\<rparr>],
      isExecuted = False\<rparr>"

definition accepting_env :: "(string \<times> string) list safe_env" where
  "accepting_env =
     \<lparr>getPendingTransactions = (\<lambda>safeAddress. Inr (Some [])),
      getTx = (\<lambda>h. Inr tx_BA),
      confirmTx = (\<lambda>h sg. Inr ()),
      getSafeSdk = (\<lambda>signer. Inr ()),
      createTransaction = (\<lambda>dest v d. Inr []),
      getTransactionHash = (\<lambda>t. Inr ''0xhash''),
      signTransaction = (\<lambda>t. Inr [(''signer'', ''sig-new'')]),
      addSignature = (\<lambda>t a sg. t @ [(a, sg)]),
      executeTransaction = (\<lambda>t. Inr ''0xexecuted'')\<rparr>"

text \<open>The same, with a ledger that rejects the execution.\<close>

definition rejecting_env :: "(string \<times> string) list safe_env" where
  "rejecting_env = accepting_env\<lparr>executeTransaction := (\<lambda>t. Inl ''GS026'')\<rparr>"

definition wallet_A :: wallet_ctx where
  "wallet_A = \<lparr>viemAccount = Some owner_A, walletClient = True\<rparr>"

definition ui0 :: ui_state where
  "ui0 = \<lparr>pendingTxs = [tx_BA], isSigning = None, error_notice = Blank, success_notice = Blank\<rparr>"

text \<open>The same transaction when only B has confirmed, and the owners of the account.\<close>

definition tx_B :: SafeTransaction where
  "tx_B = tx_BA\<lparr>confirmations := Some [\<lparr>owner = owner_B, signature = Some ''sig-B''\<rparr>]\<rparr>"

definition owners_AB :: "string list" where
  "owners_AB = [''0x00000000000000000000000000000000000000A1'',
                ''0x00000000000000000000000000000000000000B2'']"

section \<open>Properties\<close>

subsection \<open>The store and its routes\<close>

lemma frame_rel_refl: "frame_rel i m m"
  unfolding frame_rel_def by (rule list_all2_refl) (simp add: frame_entry_def)

lemma update_status_frame:
  "map_of m i = Some da \<Longrightarrow> frame_rel i m (AList.update i (da\<lparr>status := st\<rparr>) m)"
proof (induction m)
  case Nil
  then show ?case by simp
next
  case (Cons p m)
  show ?case
  proof (cases "fst p = i")
    case True
    with Cons.prems have "da = snd p" by (cases p) simp
    with True frame_rel_refl[of i m] show ?thesis
      by (cases p) (simp add: frame_rel_def frame_entry_def)
  next
    case False
    with Cons show ?thesis
      by (cases p) (simp add: frame_rel_def frame_entry_def)
  qed
qed

lemma update_same_value: "map_of m i = Some v \<Longrightarrow> AList.update i v m = m"
  by (induction m) (auto split: if_splits)

lemma PATCH_found:
  assumes "getDelegatedAccess s i = Some da" "req = Inr b" "destructure b ''status'' = Inr st"
  shows "fst (PATCH s i req) =
     s\<lparr>delegatedAccesses := AList.update i (da\<lparr>status := js_or st (status da)\<rparr>) (delegatedAccesses s)\<rparr>"
  using assms
  by (simp add: PATCH_def updateDelegatedAccess_def getDelegatedAccess_def map_set_def Let_def)

lemma PATCH_not_applied:
  assumes "getDelegatedAccess s i = None \<or> req = Inl msg
           \<or> (req = Inr b \<and> destructure b ''status'' = Inl msg)"
  shows "fst (PATCH s i req) = s"
  using assms
  by (auto simp: PATCH_def split: sum.splits option.splits)

text \<open>
  C10. PATCH /api/delegated-accesses/[id] changes at most the \<open>status\<close> field of the
  addressed record: whatever the request body, the store afterwards holds the same keys
  in the same order, every other record is unchanged, and the addressed record is
  unchanged in every field but \<open>status\<close>. When the body carries no \<open>status\<close> the whole
  store, and with it the record's status, is as before; when the id is not in the
  store, the store is unchanged.
\<close>

theorem PATCH_changes_status_only:
  "frame_rel i (delegatedAccesses s) (delegatedAccesses (fst (PATCH s i req)))
   \<and> Store.more (fst (PATCH s i req)) = Store.more s
   \<and> (getDelegatedAccess s i = None \<longrightarrow> fst (PATCH s i req) = s)
   \<and> (\<forall>b. req = Inr b \<and> destructure b ''status'' = Inr None \<longrightarrow> fst (PATCH s i req) = s)"
proof (cases "getDelegatedAccess s i")
  case None
  then have "fst (PATCH s i req) = s" using PATCH_not_applied by blast
  then show ?thesis by (auto simp: frame_rel_refl)
next
  case (Some da)
  then have m: "map_of (delegatedAccesses s) i = Some da"
    by (simp add: getDelegatedAccess_def map_get_def)
  show ?thesis
  proof (cases req)
    case (Inl msg)
    then have "fst (PATCH s i req) = s" using PATCH_not_applied by blast
    then show ?thesis using Inl by (simp add: frame_rel_refl)
  next
    case (Inr b)
    show ?thesis
    proof (cases "destructure b ''status''")
      case (Inl msg)
      with Inr have "fst (PATCH s i req) = s" using PATCH_not_applied by blast
      then show ?thesis using Inr Inl by (simp add: frame_rel_refl)
    next
      case st: (Inr st)
      note eq = PATCH_found[OF Some Inr st]
      have "st = None \<Longrightarrow> fst (PATCH s i req) = s"
        using eq update_same_value[OF m] by simp
      then show ?thesis
        using eq update_status_frame[OF m] Some Inr st by auto
    qed
  qed
qed

theorem PATCH_changes_status_only_witness:
  "getDelegatedAccess store1 ''da-9'' = None
   \<and> fst (PATCH store1 ''da-9'' (Inr (JObj [(''status'', JStr ''revoked'')]))) = store1
   \<and> destructure (JObj [(''note'', JStr ''x'')]) ''status'' = Inr None
   \<and> fst (PATCH store1 ''da-1'' (Inr (JObj [(''note'', JStr ''x'')]))) = store1
   \<and> frame_rel ''da-1'' (delegatedAccesses store1)
        (delegatedAccesses (fst (PATCH store1 ''da-1'' (Inr (JObj [(''status'', JStr ''revoked'')])))))
   \<and> delegatedAccesses (fst (PATCH store1 ''da-1'' (Inr (JObj [(''status'', JStr ''revoked'')]))))
       = [(''da-1'', access1\<lparr>status := JStr ''revoked''\<rparr>)]"
  using PATCH_changes_status_only[of "''da-9''" store1 "Inr (JObj [(''status'', JStr ''revoked'')])"]
        PATCH_changes_status_only[of "''da-1''" store1 "Inr (JObj [(''note'', JStr ''x'')])"]
        PATCH_changes_status_only[of "''da-1''" store1 "Inr (JObj [(''status'', JStr ''revoked'')])"]
  by (simp add: store1_def access1_def getDelegatedAccess_def map_get_def PATCH_def
        updateDelegatedAccess_def map_set_def Let_def)

lemma low_entry_fields:
  assumes "low_entry p q"
  shows "fst q = fst p" "da_id (snd q) = da_id (snd p)" "vaultId (snd q) = vaultId (snd p)"
    "walletId (snd q) = walletId (snd p)" "userId (snd q) = userId (snd p)"
    "delegateUserId (snd q) = delegateUserId (snd p)" "delegateEmail (snd q) = delegateEmail (snd p)"
    "publicKey (snd q) = publicKey (snd p)" "createdAt (snd q) = createdAt (snd p)"
    "status (snd q) = status (snd p)" "eventId (snd q) = eventId (snd p)"
proof -
  obtain a where a: "snd p = a" by simp
  obtain b where b: "snd q = b" by simp
  from assms have k: "fst q = fst p"
    and e: "b\<lparr>delegatedShare := delegatedShare a, walletApiKey := walletApiKey a\<rparr> = a"
    by (simp_all add: low_entry_def a b)
  show "fst q = fst p" by (rule k)
  from e show "da_id (snd q) = da_id (snd p)" "vaultId (snd q) = vaultId (snd p)"
    "walletId (snd q) = walletId (snd p)" "userId (snd q) = userId (snd p)"
    "delegateUserId (snd q) = delegateUserId (snd p)" "delegateEmail (snd q) = delegateEmail (snd p)"
    "publicKey (snd q) = publicKey (snd p)" "createdAt (snd q) = createdAt (snd p)"
    "status (snd q) = status (snd p)" "eventId (snd q) = eventId (snd p)"
    unfolding a b by (cases a; cases b; simp)+
qed

lemma sanitized_low: "low_entry p q \<Longrightarrow> sanitized (snd q) = sanitized (snd p)"
  by (simp add: sanitized_def low_entry_fields)

lemma sanitized_status: "low_entry p q \<Longrightarrow> sanitized ((snd q)\<lparr>status := st\<rparr>) = sanitized ((snd p)\<lparr>status := st\<rparr>)"
  by (simp add: sanitized_def low_entry_fields)

lemma sanitized_no_secret: "\<not> exposes_secret (sanitized da)"
  by (cases "eventId da") (simp_all add: sanitized_def secret_field_def)

lemma map_of_low:
  "list_all2 low_entry m m' \<Longrightarrow>
   (map_of m i = None \<and> map_of m' i = None)
   \<or> (\<exists>a b. map_of m i = Some a \<and> map_of m' i = Some b \<and> low_entry (i, a) (i, b))"
proof (induction rule: list_all2_induct)
  case Nil
  then show ?case by simp
next
  case (Cons p m q m')
  then show ?case
    by (cases p; cases q) (auto simp: low_entry_def)
qed

lemma filter_low:
  assumes "list_all2 low_entry m m'"
    and "\<And>p q. low_entry p q \<Longrightarrow> P (snd p) = P (snd q)"
  shows "list_all2 low_entry (filter (\<lambda>p. P (snd p)) m) (filter (\<lambda>p. P (snd p)) m')"
  using assms(1)
proof (induction rule: list_all2_induct)
  case Nil
  then show ?case by simp
next
  case (Cons p m q m')
  with assms(2)[of p q] show ?case by auto
qed

lemma values_low: "list_all2 low_entry m m' \<Longrightarrow> list_all2 pub_eq (map snd m) (map snd m')"
proof (induction rule: list_all2_induct)
  case Nil
  then show ?case by simp
next
  case (Cons p m q m')
  then show ?case by (simp add: pub_eq_def sanitized_low low_entry_fields)
qed

lemma filter_param_pub:
  assumes "list_all2 pub_eq xs ys" and "\<And>a b. pub_eq a b \<Longrightarrow> f b = f a"
  shows "list_all2 pub_eq (filter_param q f xs) (filter_param q f ys)"
proof -
  from assms(1) have "list_all2 pub_eq (filter (\<lambda>da. Some (f da) = q) xs) (filter (\<lambda>da. Some (f da) = q) ys)"
  proof (induction rule: list_all2_induct)
    case Nil
    then show ?case by simp
  next
    case (Cons a xs b ys)
    with assms(2)[of a b] show ?case by simp
  qed
  with assms(1) show ?thesis by (simp add: filter_param_def)
qed

lemma map_sanitized_pub: "list_all2 pub_eq xs ys \<Longrightarrow> map sanitized ys = map sanitized xs"
  by (induction rule: list_all2_induct) (simp_all add: pub_eq_def)

lemma GET_all_low:
  assumes "low_equal s s'"
  shows "GET_all s' qv qw qe = GET_all s qv qw qe"
proof -
  from assms have v: "list_all2 pub_eq (getAllDelegatedAccesses s) (getAllDelegatedAccesses s')"
    by (simp add: low_equal_def getAllDelegatedAccesses_def map_values_def values_low)
  have "list_all2 pub_eq
      (filter_param qe delegateEmail (filter_param qw walletId (filter_param qv vaultId (getAllDelegatedAccesses s))))
      (filter_param qe delegateEmail (filter_param qw walletId (filter_param qv vaultId (getAllDelegatedAccesses s'))))"
    by (intro filter_param_pub v) (simp_all add: pub_eq_def)
  then show ?thesis
    by (simp add: GET_all_def Let_def map_sanitized_pub)
qed

lemma GET_one_low:
  assumes "low_equal s s'"
  shows "GET_one s' i = GET_one s i"
  using map_of_low[of "delegatedAccesses s" "delegatedAccesses s'" i] assms sanitized_low
  by (fastforce simp: low_equal_def GET_one_def getDelegatedAccess_def map_get_def)

lemma PATCH_response_low:
  assumes "low_equal s s'"
  shows "snd (PATCH s' i req) = snd (PATCH s i req)"
proof -
  from assms have l: "list_all2 low_entry (delegatedAccesses s) (delegatedAccesses s')"
    by (simp add: low_equal_def)
  show ?thesis
    using map_of_low[OF l, of i]
  proof
    assume "map_of (delegatedAccesses s) i = None \<and> map_of (delegatedAccesses s') i = None"
    then show ?thesis
      by (simp add: PATCH_def getDelegatedAccess_def map_get_def split: sum.splits)
  next
    assume "\<exists>a b. map_of (delegatedAccesses s) i = Some a \<and> map_of (delegatedAccesses s') i = Some b
              \<and> low_entry (i, a) (i, b)"
    then obtain a b where a: "map_of (delegatedAccesses s) i = Some a"
      and b: "map_of (delegatedAccesses s') i = Some b" and ab: "low_entry (i, a) (i, b)"
      by blast
    from ab have st: "status b = status a" using low_entry_fields(10)[OF ab] by simp
    from sanitized_status[OF ab] have "\<And>x. sanitized (b\<lparr>status := x\<rparr>) = sanitized (a\<lparr>status := x\<rparr>)"
      by simp
    with a b st show ?thesis
      by (simp add: PATCH_def getDelegatedAccess_def map_get_def updateDelegatedAccess_def Let_def
          split: sum.splits)
  qed
qed

lemma GET_all_no_secret: "\<not> exposes_secret (body (GET_all s qv qw qe))"
  by (simp add: GET_all_def Let_def list_ex_iff sanitized_def)
     (auto simp: secret_field_def split: option.splits)

lemma GET_one_no_secret: "\<not> exposes_secret (body (GET_one s i))"
  using sanitized_no_secret
  by (simp add: GET_one_def secret_field_def split: option.splits)

lemma PATCH_no_secret: "\<not> exposes_secret (body (snd (PATCH s i req)))"
  using sanitized_no_secret
  by (simp add: PATCH_def failed_update_def secret_field_def updateDelegatedAccess_def Let_def
      split: sum.splits option.splits)

text \<open>
  C9. The three routes that answer with delegated-access records never expose the
  decrypted signing material: no response body of GET /api/delegated-accesses,
  GET /api/delegated-accesses/[id] or PATCH /api/delegated-accesses/[id] has a
  \<open>delegatedShare\<close> or \<open>walletApiKey\<close> field, and two stores whose records differ
  only in those two fields get identical responses.
\<close>

theorem responses_hide_signing_material:
  "\<not> exposes_secret (body (GET_all s qv qw qe))
   \<and> \<not> exposes_secret (body (GET_one s i))
   \<and> \<not> exposes_secret (body (snd (PATCH s i req)))
   \<and> (low_equal s s' \<longrightarrow>
        GET_all s' qv qw qe = GET_all s qv qw qe
        \<and> GET_one s' i = GET_one s i
        \<and> snd (PATCH s' i req) = snd (PATCH s i req))"
  by (simp add: GET_all_no_secret GET_one_no_secret PATCH_no_secret GET_all_low GET_one_low
      PATCH_response_low)

theorem responses_hide_signing_material_witness:
  "low_equal store1 store1' \<and> store1' \<noteq> store1
   \<and> GET_all store1' None None None = GET_all store1 None None None
   \<and> GET_one store1' ''da-1'' = GET_one store1 ''da-1''
   \<and> snd (PATCH store1' ''da-1'' (Inr (JObj [(''status'', JStr ''revoked'')])))
       = snd (PATCH store1 ''da-1'' (Inr (JObj [(''status'', JStr ''revoked'')])))
   \<and> field_names (body (GET_one store1 ''da-1''))
       = [''id'', ''vaultId'', ''walletId'', ''userId'', ''delegateUserId'', ''delegateEmail'',
          ''publicKey'', ''createdAt'', ''status'', ''eventId'']"
proof -
  have l: "low_equal store1 store1'"
    by (simp add: low_equal_def low_entry_def store1_def store1'_def access1_def)
  have n: "store1' \<noteq> store1"
    by (simp add: store1_def store1'_def access1_def)
  have f: "field_names (body (GET_one store1 ''da-1''))
       = [''id'', ''vaultId'', ''walletId'', ''userId'', ''delegateUserId'', ''delegateEmail'',
          ''publicKey'', ''createdAt'', ''status'', ''eventId'']"
    by (simp add: GET_one_def getDelegatedAccess_def map_get_def store1_def access1_def sanitized_def)
  show ?thesis
    using l n f
      responses_hide_signing_material[of store1 None None None "''da-1''"
        "Inr (JObj [(''status'', JStr ''revoked'')])" store1']
    by simp
qed

subsection \<open>Triggering a delegation\<close>

lemma try_endpoints_all_404:
  "list_all (\<lambda>apiUrl. answers_404 (F apiUrl rq)) urls \<Longrightarrow> try_endpoints F rq urls = None"
proof (induction urls)
  case Nil
  then show ?case by simp
next
  case (Cons u urls)
  from Cons.prems obtain t j where "F u rq = HttpResponse 404 t j"
    by (cases "F u rq") auto
  with Cons show ?case
    by (simp add: response_ok_def split: sum.splits)
qed

text \<open>
  C8. When every endpoint \<open>triggerDelegation\<close> tries answers 404, the call does not
  throw: it returns a result with \<open>success\<close> false and \<open>requiresClientSide\<close> true.
\<close>

theorem triggerDelegation_all_404:
  assumes "all_404 env F wallet email webhookUrl"
  shows "triggerDelegation env F wallet email webhookUrl =
           Inr \<lparr>success = False,
                message = ''Delegation API endpoint not available. Delegation must be triggered via client-side SDK using useWalletDelegation hook.'',
                delegationId = None,
                requiresClientSide = Some True\<rparr>"
proof (cases "getCredentials env")
  case None
  with assms show ?thesis by (simp add: all_404_def)
next
  case (Some credentials)
  with assms show ?thesis
    by (simp add: all_404_def triggerDelegation_def Let_def try_endpoints_all_404)
qed

theorem triggerDelegation_all_404_witness:
  "all_404 env1 fetch_404 ''wallet-1'' ''Delegate@Example.org'' None
   \<and> triggerDelegation env1 fetch_404 ''wallet-1'' ''Delegate@Example.org'' None =
           Inr \<lparr>success = False,
                message = ''Delegation API endpoint not available. Delegation must be triggered via client-side SDK using useWalletDelegation hook.'',
                delegationId = None,
                requiresClientSide = Some True\<rparr>"
proof -
  have h: "all_404 env1 fetch_404 ''wallet-1'' ''Delegate@Example.org'' None"
    by (simp add: all_404_def env1_def getCredentials_def fetch_404_def endpoints_def)
  show ?thesis
    using h triggerDelegation_all_404[OF h] by simp
qed

subsection \<open>Decrypting the delegation materials\<close>

lemma decryptAesGcm_Inr_iff:
  "decryptAesGcm N key ivB64 ctB64 tagB64 = Inr plaintext \<longleftrightarrow>
     (\<exists>d0 d1 d2 chunk rest.
        createDecipheriv N key (from_base64url N ivB64) = Inr d0
        \<and> setAuthTag N d0 (from_base64url N tagB64) = Inr d1
        \<and> decipher_update N d1 (from_base64url N ctB64) = Inr (chunk, d2)
        \<and> decipher_final N d2 = Inr rest
        \<and> plaintext = chunk @ rest)"
  by (auto simp: decryptAesGcm_def Let_def split: sum.splits prod.splits)

lemma decryptAesGcm_tag_failure:
  assumes "createDecipheriv N key (from_base64url N ivB64) = Inr d0"
    and "setAuthTag N d0 (from_base64url N tagB64) = Inr d1"
    and "decipher_update N d1 (from_base64url N ctB64) = Inr (chunk, d2)"
    and "decipher_final N d2 = Inl msg"
  shows "decryptAesGcm N key ivB64 ctB64 tagB64 = Inl msg"
  using assms by (simp add: decryptAesGcm_def Let_def)

lemma decryptMaterials_try_Inr_iff:
  "decryptMaterials_try N pem share apiKeyEnc = Inr (share_json, apiKey) \<longleftrightarrow>
     (\<exists>shareKey apiKeyKey shareBuf apiKeyBuf.
        rsaOaepDecryptEk N (replace_escaped_newlines pem) (ek share) = Inr shareKey
        \<and> rsaOaepDecryptEk N (replace_escaped_newlines pem) (ek apiKeyEnc) = Inr apiKeyKey
        \<and> decryptAesGcm N shareKey (iv share) (ct share) (tag share) = Inr shareBuf
        \<and> decryptAesGcm N apiKeyKey (iv apiKeyEnc) (ct apiKeyEnc) (tag apiKeyEnc) = Inr apiKeyBuf
        \<and> JSON_parse N (to_utf8 N shareBuf) = Inr share_json
        \<and> apiKey = to_utf8 N apiKeyBuf)"
  by (auto simp: decryptMaterials_try_def Let_def split: sum.splits)

lemma decryptMaterials_Inr_iff:
  "decryptMaterials N pem share apiKeyEnc = Inr r \<longleftrightarrow> decryptMaterials_try N pem share apiKeyEnc = Inr r"
  by (simp add: decryptMaterials_def split: sum.splits)

lemma decryptMaterials_Inl:
  "decryptMaterials_try N pem share apiKeyEnc = Inl msg \<Longrightarrow>
   decryptMaterials N pem share apiKeyEnc = Inl (''Failed to decrypt delegation materials: '' @ msg)"
  by (simp add: decryptMaterials_def)

lemma tag_failure_decryptAesGcm:
  "tag_failure N key e = Some msg \<Longrightarrow> decryptAesGcm N key (iv e) (ct e) (tag e) = Inl msg"
  by (auto simp: tag_failure_def decryptAesGcm_def Let_def split: sum.splits prod.splits)

lemma decryptAesGcm_no_tag_failure:
  "decryptAesGcm N key (iv e) (ct e) (tag e) = Inr plaintext \<Longrightarrow> tag_failure N key e = None"
  by (auto simp: tag_failure_def decryptAesGcm_def Let_def split: sum.splits prod.splits)

text \<open>
  C1. \<open>decryptMaterials\<close> returns the decrypted materials only if, for both envelopes,
  the RSA-OAEP unwrap of the content-encryption key and the AES-256-GCM decryption
  under that key succeed. If the GCM tag of either envelope does not verify, the
  function throws: the caller gets the message of the exception and none of the bytes
  \<open>decipher_update\<close> had already produced.
\<close>

theorem decryptMaterials_needs_both_stages:
  "(decryptMaterials N pem share apiKeyEnc = Inr r \<longrightarrow>
      (\<exists>shareKey apiKeyKey shareBuf apiKeyBuf.
         rsaOaepDecryptEk N (replace_escaped_newlines pem) (ek share) = Inr shareKey
         \<and> rsaOaepDecryptEk N (replace_escaped_newlines pem) (ek apiKeyEnc) = Inr apiKeyKey
         \<and> decryptAesGcm N shareKey (iv share) (ct share) (tag share) = Inr shareBuf
         \<and> decryptAesGcm N apiKeyKey (iv apiKeyEnc) (ct apiKeyEnc) (tag apiKeyEnc) = Inr apiKeyBuf
         \<and> tag_failure N shareKey share = None
         \<and> tag_failure N apiKeyKey apiKeyEnc = None
         \<and> JSON_parse N (to_utf8 N shareBuf) = Inr (fst r)
         \<and> snd r = to_utf8 N apiKeyBuf))
   \<and> (\<forall>shareKey apiKeyKey msg.
         rsaOaepDecryptEk N (replace_escaped_newlines pem) (ek share) = Inr shareKey
         \<and> rsaOaepDecryptEk N (replace_escaped_newlines pem) (ek apiKeyEnc) = Inr apiKeyKey
         \<and> tag_failure N shareKey share = Some msg
         \<longrightarrow> decryptMaterials N pem share apiKeyEnc
               = Inl (''Failed to decrypt delegation materials: '' @ msg))
   \<and> (\<forall>shareKey apiKeyKey shareBuf msg.
         rsaOaepDecryptEk N (replace_escaped_newlines pem) (ek share) = Inr shareKey
         \<and> rsaOaepDecryptEk N (replace_escaped_newlines pem) (ek apiKeyEnc) = Inr apiKeyKey
         \<and> decryptAesGcm N shareKey (iv share) (ct share) (tag share) = Inr shareBuf
         \<and> tag_failure N apiKeyKey apiKeyEnc = Some msg
         \<longrightarrow> decryptMaterials N pem share apiKeyEnc
               = Inl (''Failed to decrypt delegation materials: '' @ msg))"
proof (intro conjI impI allI)
  assume "decryptMaterials N pem share apiKeyEnc = Inr r"
  then have "decryptMaterials_try N pem share apiKeyEnc = Inr (fst r, snd r)"
    by (simp add: decryptMaterials_Inr_iff)
  then obtain shareKey apiKeyKey shareBuf apiKeyBuf where
    k: "rsaOaepDecryptEk N (replace_escaped_newlines pem) (ek share) = Inr shareKey"
       "rsaOaepDecryptEk N (replace_escaped_newlines pem) (ek apiKeyEnc) = Inr apiKeyKey"
    and d: "decryptAesGcm N shareKey (iv share) (ct share) (tag share) = Inr shareBuf"
       "decryptAesGcm N apiKeyKey (iv apiKeyEnc) (ct apiKeyEnc) (tag apiKeyEnc) = Inr apiKeyBuf"
    and j: "JSON_parse N (to_utf8 N shareBuf) = Inr (fst r)" "snd r = to_utf8 N apiKeyBuf"
    unfolding decryptMaterials_try_Inr_iff by blast
  from d have "tag_failure N shareKey share = None" "tag_failure N apiKeyKey apiKeyEnc = None"
    by (simp_all add: decryptAesGcm_no_tag_failure)
  with k d j show "\<exists>shareKey apiKeyKey shareBuf apiKeyBuf.
         rsaOaepDecryptEk N (replace_escaped_newlines pem) (ek share) = Inr shareKey
         \<and> rsaOaepDecryptEk N (replace_escaped_newlines pem) (ek apiKeyEnc) = Inr apiKeyKey
         \<and> decryptAesGcm N shareKey (iv share) (ct share) (tag share) = Inr shareBuf
         \<and> decryptAesGcm N apiKeyKey (iv apiKeyEnc) (ct apiKeyEnc) (tag apiKeyEnc) = Inr apiKeyBuf
         \<and> tag_failure N shareKey share = None
         \<and> tag_failure N apiKeyKey apiKeyEnc = None
         \<and> JSON_parse N (to_utf8 N shareBuf) = Inr (fst r)
         \<and> snd r = to_utf8 N apiKeyBuf"
    by blast
next
  fix shareKey apiKeyKey msg
  assume "rsaOaepDecryptEk N (replace_escaped_newlines pem) (ek share) = Inr shareKey
         \<and> rsaOaepDecryptEk N (replace_escaped_newlines pem) (ek apiKeyEnc) = Inr apiKeyKey
         \<and> tag_failure N shareKey share = Some msg"
  then have "decryptMaterials_try N pem share apiKeyEnc = Inl msg"
    by (simp add: decryptMaterials_try_def Let_def tag_failure_decryptAesGcm)
  then show "decryptMaterials N pem share apiKeyEnc
               = Inl (''Failed to decrypt delegation materials: '' @ msg)"
    by (rule decryptMaterials_Inl)
next
  fix shareKey apiKeyKey shareBuf msg
  assume "rsaOaepDecryptEk N (replace_escaped_newlines pem) (ek share) = Inr shareKey
         \<and> rsaOaepDecryptEk N (replace_escaped_newlines pem) (ek apiKeyEnc) = Inr apiKeyKey
         \<and> decryptAesGcm N shareKey (iv share) (ct share) (tag share) = Inr shareBuf
         \<and> tag_failure N apiKeyKey apiKeyEnc = Some msg"
  then have "decryptMaterials_try N pem share apiKeyEnc = Inl msg"
    by (simp add: decryptMaterials_try_def Let_def tag_failure_decryptAesGcm)
  then show "decryptMaterials N pem share apiKeyEnc
               = Inl (''Failed to decrypt delegation materials: '' @ msg)"
    by (rule decryptMaterials_Inl)
qed

lemma toy_rsa: "rsaOaepDecryptEk toy_node ''PEM'' k = Inr k"
  by (simp add: rsaOaepDecryptEk_def toy_node_def)

theorem decryptMaterials_needs_both_stages_witness:
  "decryptMaterials toy_node ''PEM'' good_share good_apiKey = Inr (JNull, ''api-key'')
   \<and> tag_failure toy_node ''k1'' good_share = None
   \<and> tag_failure toy_node ''k2'' good_apiKey = None
   \<and> decipher_update toy_node (''k2'', ''bad'') ''forged-key'' = Inr (''forged-key'', (''k2'', ''bad''))
   \<and> tag_failure toy_node ''k2'' forged_apiKey = Some ''Unsupported state or unable to authenticate data''
   \<and> decryptMaterials toy_node ''PEM'' good_share forged_apiKey
       = Inl ''Failed to decrypt delegation materials: Unsupported state or unable to authenticate data''"
proof -
  have ok: "decryptMaterials toy_node ''PEM'' good_share good_apiKey = Inr (JNull, ''api-key'')"
    by (simp add: decryptMaterials_def decryptMaterials_try_def rsaOaepDecryptEk_def decryptAesGcm_def
        toy_node_def good_share_def good_apiKey_def)
  have k: "rsaOaepDecryptEk toy_node (replace_escaped_newlines ''PEM'') (ek good_share) = Inr ''k1''"
          "rsaOaepDecryptEk toy_node (replace_escaped_newlines ''PEM'') (ek forged_apiKey) = Inr ''k2''"
    by (simp_all add: toy_rsa good_share_def forged_apiKey_def good_apiKey_def)
  have s: "decryptAesGcm toy_node ''k1'' (iv good_share) (ct good_share) (tag good_share) = Inr ''null''"
    by (simp add: decryptAesGcm_def toy_node_def good_share_def)
  have u: "decipher_update toy_node (''k2'', ''bad'') ''forged-key'' = Inr (''forged-key'', (''k2'', ''bad''))"
    by (simp add: toy_node_def)
  have f: "tag_failure toy_node ''k2'' forged_apiKey = Some ''Unsupported state or unable to authenticate data''"
    by (simp add: tag_failure_def toy_node_def forged_apiKey_def good_apiKey_def)
  have t: "tag_failure toy_node ''k1'' good_share = None" "tag_failure toy_node ''k2'' good_apiKey = None"
    by (simp_all add: tag_failure_def toy_node_def good_share_def good_apiKey_def)
  show ?thesis
    using ok k s u f t
      decryptMaterials_needs_both_stages[of toy_node "''PEM''" good_share good_apiKey "(JNull, ''api-key'')"]
      decryptMaterials_needs_both_stages[of toy_node "''PEM''" good_share forged_apiKey "(JNull, ''api-key'')"]
    by (auto simp: toy_rsa)
qed

subsection \<open>The webhook pipeline\<close>

text \<open>
  C4, as stated, fails: called without a webhook secret, the pipeline verifies nothing
  and decrypts the envelopes.
\<close>

theorem processDelegationWebhook_unverified_counterexample:
  "processDelegationWebhook toy_node webhook1 ''PEM'' None =
     ([DecryptMaterials good_share good_apiKey],
      Inr \<lparr>out_userId = ''user-1'', out_walletId = ''wallet-1'', out_publicKey = ''0x04ab'',
           out_delegatedShare = JNull, out_walletApiKey = ''api-key'', out_eventId = ''evt-1''\<rparr>)
   \<and> \<not> list_ex is_verify (fst (processDelegationWebhook toy_node webhook1 ''PEM'' None))
   \<and> list_ex is_decrypt (fst (processDelegationWebhook toy_node webhook1 ''PEM'' None))"
  by (simp add: processDelegationWebhook_def processDelegationWebhook_with_def webhook1_def
      decryptMaterials_def decryptMaterials_try_def rsaOaepDecryptEk_def decryptAesGcm_def
      toy_node_def good_share_def good_apiKey_def)

text \<open>
  C4, amended. When a webhook secret is supplied, the pipeline calls the signature
  verifier, on the webhook serialised again and an empty signature, before
  \<open>decryptMaterials\<close>; if the verifier rejects, the pipeline throws
  "Invalid webhook signature" and decrypts nothing. When no secret is supplied,
  verification is skipped and the envelopes are decrypted.
\<close>

theorem processDelegationWebhook_verifies_first:
  "(truthy_str webhookSecret \<and> \<not> V (JSON_stringify N webhook) [] (the webhookSecret) \<longrightarrow>
      processDelegationWebhook_with V N webhook pem webhookSecret =
        ([VerifySignature (JSON_stringify N webhook) [] (the webhookSecret)],
         Inl ''Invalid webhook signature''))
   \<and> (truthy_str webhookSecret \<and> V (JSON_stringify N webhook) [] (the webhookSecret) \<longrightarrow>
      fst (processDelegationWebhook_with V N webhook pem webhookSecret) =
        [VerifySignature (JSON_stringify N webhook) [] (the webhookSecret),
         DecryptMaterials (encryptedDelegatedShare (wh_data webhook))
           (encryptedWalletApiKey (wh_data webhook))])
   \<and> (\<not> truthy_str webhookSecret \<longrightarrow>
      fst (processDelegationWebhook_with V N webhook pem webhookSecret) =
        [DecryptMaterials (encryptedDelegatedShare (wh_data webhook))
           (encryptedWalletApiKey (wh_data webhook))])
   \<and> (isl (decryptMaterials N pem (encryptedDelegatedShare (wh_data webhook))
              (encryptedWalletApiKey (wh_data webhook))) \<longrightarrow>
        isl (snd (processDelegationWebhook_with V N webhook pem webhookSecret)))"
  by (auto simp: processDelegationWebhook_with_def Let_def split: sum.splits prod.splits)

theorem processDelegationWebhook_verifies_first_witness:
  "truthy_str (Some ''whsec'') \<and> \<not> reject_all (JSON_stringify toy_node webhook1) [] ''whsec''
   \<and> processDelegationWebhook_with reject_all toy_node webhook1 ''PEM'' (Some ''whsec'') =
        ([VerifySignature ''evt-1'' [] ''whsec''], Inl ''Invalid webhook signature'')
   \<and> verifyWebhookSignature (JSON_stringify toy_node webhook1) [] ''whsec''
   \<and> fst (processDelegationWebhook toy_node webhook1 ''PEM'' (Some ''whsec'')) =
        [VerifySignature ''evt-1'' [] ''whsec'', DecryptMaterials good_share good_apiKey]
   \<and> \<not> truthy_str (Some [])
   \<and> fst (processDelegationWebhook toy_node webhook1 ''PEM'' (Some [])) =
        [DecryptMaterials good_share good_apiKey]
   \<and> isl (decryptMaterials toy_node ''PEM'' good_share forged_apiKey)
   \<and> isl (snd (processDelegationWebhook toy_node
        (webhook1\<lparr>wh_data := (wh_data webhook1)\<lparr>encryptedWalletApiKey := forged_apiKey\<rparr>\<rparr>)
        ''PEM'' (Some ''whsec'')))"
proof -
  have s: "JSON_stringify toy_node webhook1 = ''evt-1''"
    by (simp add: toy_node_def webhook1_def)
  have d: "encryptedDelegatedShare (wh_data webhook1) = good_share"
          "encryptedWalletApiKey (wh_data webhook1) = good_apiKey"
    by (simp_all add: webhook1_def)
  have f: "isl (decryptMaterials toy_node ''PEM'' good_share forged_apiKey)"
    by (simp add: decryptMaterials_def decryptMaterials_try_def rsaOaepDecryptEk_def decryptAesGcm_def
        toy_node_def good_share_def good_apiKey_def forged_apiKey_def)
  show ?thesis
    using s d f
      processDelegationWebhook_verifies_first[of "Some ''whsec''" reject_all toy_node webhook1 "''PEM''"]
      processDelegationWebhook_verifies_first[of "Some ''whsec''" verifyWebhookSignature toy_node webhook1 "''PEM''"]
      processDelegationWebhook_verifies_first[of "Some []" verifyWebhookSignature toy_node webhook1 "''PEM''"]
      processDelegationWebhook_verifies_first[of "Some ''whsec''" verifyWebhookSignature toy_node
        "webhook1\<lparr>wh_data := (wh_data webhook1)\<lparr>encryptedWalletApiKey := forged_apiKey\<rparr>\<rparr>" "''PEM''"]
    by (simp add: reject_all_def verifyWebhookSignature_def processDelegationWebhook_def)
qed

subsection \<open>Materialising delegation events\<close>

lemma ids_of_simps:
  "ids_of [] = []"
  "ids_of ((k, a) # m) = (case eventId a of None \<Rightarrow> ids_of m | Some e \<Rightarrow> e # ids_of m)"
  by (simp_all add: ids_of_def split: option.splits)

lemma event_ids_ids_of: "event_ids s = ids_of (delegatedAccesses s)"
  by (simp add: event_ids_def ids_of_def getAllDelegatedAccesses_def map_values_def)

lemma ids_of_update_subset:
  "set (ids_of (AList.update k v m))
     \<subseteq> set (ids_of m) \<union> (case eventId v of None \<Rightarrow> {} | Some e \<Rightarrow> {e})"
proof (induction m)
  case Nil
  then show ?case by (auto simp: ids_of_simps split: option.splits)
next
  case (Cons p m)
  then show ?case
    by (cases p) (auto simp: ids_of_simps split: option.splits)
qed

lemma ids_of_update_distinct:
  assumes "distinct (ids_of m)" and "\<forall>e. eventId v = Some e \<longrightarrow> e \<notin> set (ids_of m)"
  shows "distinct (ids_of (AList.update k v m))"
  using assms
proof (induction m)
  case Nil
  then show ?case by (simp add: ids_of_simps split: option.splits)
next
  case (Cons p m)
  obtain k' a where p: "p = (k', a)" by (cases p)
  show ?case
  proof (cases "k' = k")
    case True
    with Cons.prems p show ?thesis
      by (auto simp: ids_of_simps split: option.splits)
  next
    case False
    from Cons.prems p have d: "distinct (ids_of m)"
      and n: "\<forall>e. eventId v = Some e \<longrightarrow> e \<notin> set (ids_of m)"
      by (auto simp: ids_of_simps split: option.splits)
    from Cons.IH[OF d n] have ih: "distinct (ids_of (AList.update k v m))" .
    show ?thesis
    proof (cases "eventId a")
      case None
      with False p ih show ?thesis by (simp add: ids_of_simps)
    next
      case (Some e')
      with Cons.prems p have "e' \<notin> set (ids_of m)" "eventId v \<noteq> Some e'"
        by (auto simp: ids_of_simps)
      with ids_of_update_subset[of k v m] have "e' \<notin> set (ids_of (AList.update k v m))"
        by (auto split: option.splits)
      with False p ih Some show ?thesis by (simp add: ids_of_simps)
    qed
  qed
qed

lemma set_ids_of: "set (ids_of m) = {e. \<exists>a \<in> set (map snd m). eventId a = Some e}"
  by (induction m) (auto simp: ids_of_simps split: option.splits)

lemma find_event_None:
  "getDelegatedAccessByEventId s e = None \<longleftrightarrow> e \<notin> set (event_ids s)"
  by (auto simp: getDelegatedAccessByEventId_def event_ids_ids_of set_ids_of map_values_def find_None_iff)

lemma create_preserves:
  assumes "one_record_per_event s" and "\<forall>e. eventId da = Some e \<longrightarrow> e \<notin> set (event_ids s)"
  shows "one_record_per_event (fst (createDelegatedAccess s da))"
  using assms
  by (simp add: one_record_per_event_def createDelegatedAccess_def map_set_def event_ids_ids_of
      distinct_update ids_of_update_distinct)

lemma materialize_preserves:
  assumes "one_record_per_event s"
  shows "one_record_per_event (fst (materialize s e da))"
proof (cases "getDelegatedAccessByEventId s e")
  case None
  then have "e \<notin> set (event_ids s)" by (simp add: find_event_None)
  with assms have "one_record_per_event (fst (createDelegatedAccess s (da\<lparr>eventId := Some e\<rparr>)))"
    by (intro create_preserves) simp_all
  with None show ?thesis by (simp add: materialize_def)
next
  case (Some existing)
  with assms show ?thesis by (simp add: materialize_def)
qed

lemma apply_op_preserves:
  "one_record_per_event s \<Longrightarrow> one_record_per_event (apply_op s op)"
  by (cases op) (simp_all add: materialize_preserves create_preserves)

lemma run_ops_preserves:
  "one_record_per_event s \<Longrightarrow> one_record_per_event (run_ops s ops)"
  unfolding run_ops_def
  by (induction ops arbitrary: s) (simp_all add: apply_op_preserves)

lemma records_count: "length (filter (\<lambda>da. eventId da = Some e) (map snd m)) = count_list (ids_of m) e"
  by (induction m) (auto simp: ids_of_simps split: option.splits)

lemma distinct_count_le: "distinct xs \<Longrightarrow> count_list xs x \<le> 1"
  by (induction xs) (auto simp: count_list_0_iff)

lemma records_of_event_count:
  "length (records_of_event s e) = count_list (event_ids s) e"
  unfolding records_of_event_def getAllDelegatedAccesses_def map_values_def event_ids_ids_of
  by (rule records_count)

lemma at_most_one_record:
  "one_record_per_event s \<Longrightarrow> length (records_of_event s e) \<le> 1"
  using distinct_count_le[of "event_ids s" e]
  by (simp add: records_of_event_count one_record_per_event_def)

lemma find_after_update:
  assumes "P v" and "\<forall>a \<in> set (map snd m). \<not> P a"
  shows "find P (map snd (AList.update k v m)) = Some v"
  using assms by (induction m) auto

lemma materialize_then_found:
  "getDelegatedAccessByEventId (fst (materialize s e da)) e = Some (snd (materialize s e da))"
proof (cases "getDelegatedAccessByEventId s e")
  case None
  then have "\<forall>a \<in> set (map snd (delegatedAccesses s)). \<not> eventId a = Some e"
    by (simp add: getDelegatedAccessByEventId_def map_values_def find_None_iff)
  then have "find (\<lambda>a. eventId a = Some e)
      (map snd (AList.update (da_id da) (da\<lparr>eventId := Some e\<rparr>) (delegatedAccesses s)))
      = Some (da\<lparr>eventId := Some e\<rparr>)"
    by (intro find_after_update) simp_all
  with None show ?thesis
    by (simp add: materialize_def createDelegatedAccess_def getDelegatedAccessByEventId_def
        map_values_def map_set_def)
next
  case (Some existing)
  then show ?thesis by (simp add: materialize_def)
qed

lemma found_record_counted:
  "getDelegatedAccessByEventId s e = Some r \<Longrightarrow> 1 \<le> length (records_of_event s e)"
proof -
  assume "getDelegatedAccessByEventId s e = Some r"
  then have "r \<in> set (map snd (delegatedAccesses s)) \<and> eventId r = Some e"
    by (auto simp: getDelegatedAccessByEventId_def map_values_def find_Some_iff)
  then have "r \<in> set (records_of_event s e)"
    by (simp add: records_of_event_def getAllDelegatedAccesses_def map_values_def)
  then show ?thesis
    by (cases "records_of_event s e") auto
qed

text \<open>
  C2, as stated, fails: \<open>createDelegatedAccess\<close> is keyed by the record's id and does
  not look at \<open>eventId\<close>, so creating a second record for the event of the first,
  under another id, leaves two records for that event.
\<close>

theorem createDelegatedAccess_duplicate_event_counterexample:
  "one_record_per_event store1
   \<and> eventId access1 = Some ''evt-1''
   \<and> records_of_event (fst (createDelegatedAccess store1 (access1\<lparr>da_id := ''da-2''\<rparr>))) ''evt-1''
       = [access1, access1\<lparr>da_id := ''da-2''\<rparr>]
   \<and> \<not> one_record_per_event (fst (createDelegatedAccess store1 (access1\<lparr>da_id := ''da-2''\<rparr>)))"
  by (simp add: one_record_per_event_def store1_def access1_def createDelegatedAccess_def
      map_set_def records_of_event_def getAllDelegatedAccesses_def map_values_def event_ids_def)

text \<open>
  C2, amended. With the handler modelled from the spec as a lookup by
  \<open>getDelegatedAccessByEventId\<close> followed, only when nothing is found, by
  \<open>createDelegatedAccess\<close>: materialising an event whose \<open>eventId\<close> already has a record
  changes nothing and returns that record; starting from a store with at most one
  record per \<open>eventId\<close> (the empty store, for one), every run of materialisations and
  of pending-record creations (records without \<open>eventId\<close>) leaves at most one record
  per \<open>eventId\<close>; and materialising the same \<open>eventId\<close> twice leaves exactly one record
  for it, the second call returning the record of the first.
  \<open>createDelegatedAccess\<close> by itself does not check the \<open>eventId\<close>.
\<close>

theorem materialize_at_most_once:
  assumes "one_record_per_event s"
  shows "one_record_per_event (run_ops s ops)
       \<and> length (records_of_event (run_ops s ops) e') \<le> 1
       \<and> (\<forall>existing. getDelegatedAccessByEventId s e = Some existing \<longrightarrow>
             materialize s e da = (s, existing))
       \<and> materialize (fst (materialize s e da)) e da'
            = (fst (materialize s e da), snd (materialize s e da))
       \<and> length (records_of_event (run_ops s [Materialize e da, Materialize e da']) e) = 1"
proof -
  let ?s1 = "fst (materialize s e da)"
  have inv: "one_record_per_event (run_ops s ops)"
    using assms by (rule run_ops_preserves)
  have found: "getDelegatedAccessByEventId ?s1 e = Some (snd (materialize s e da))"
    by (rule materialize_then_found)
  then have again: "materialize ?s1 e da' = (?s1, snd (materialize s e da))"
    by (simp add: materialize_def)
  have "one_record_per_event ?s1"
    using assms by (rule materialize_preserves)
  then have "length (records_of_event ?s1 e) \<le> 1"
    by (rule at_most_one_record)
  moreover have "1 \<le> length (records_of_event ?s1 e)"
    using found by (rule found_record_counted)
  ultimately have one: "length (records_of_event ?s1 e) = 1"
    by simp
  have "run_ops s [Materialize e da, Materialize e da'] = ?s1"
    using again by (simp add: run_ops_def)
  with one inv again at_most_one_record[OF inv] show ?thesis
    by (simp add: materialize_def)
qed

theorem materialize_at_most_once_witness:
  "one_record_per_event \<lparr>delegatedAccesses = []\<rparr>
   \<and> run_ops \<lparr>delegatedAccesses = []\<rparr>
        [Materialize ''evt-1'' access1, CreatePending (access1\<lparr>da_id := ''temp-1''\<rparr>),
         Materialize ''evt-1'' (access1\<lparr>da_id := ''da-2''\<rparr>)]
       = \<lparr>delegatedAccesses = [(''da-1'', access1), (''temp-1'', access1\<lparr>da_id := ''temp-1'', eventId := None\<rparr>)]\<rparr>
   \<and> length (records_of_event (run_ops \<lparr>delegatedAccesses = []\<rparr>
        [Materialize ''evt-1'' access1, CreatePending (access1\<lparr>da_id := ''temp-1''\<rparr>),
         Materialize ''evt-1'' (access1\<lparr>da_id := ''da-2''\<rparr>)]) ''evt-1'') \<le> 1
   \<and> getDelegatedAccessByEventId store1 ''evt-1'' = Some access1
   \<and> materialize store1 ''evt-1'' (access1\<lparr>da_id := ''da-2''\<rparr>) = (store1, access1)
   \<and> length (records_of_event (run_ops \<lparr>delegatedAccesses = []\<rparr>
        [Materialize ''evt-1'' access1, Materialize ''evt-1'' (access1\<lparr>da_id := ''da-2''\<rparr>)]) ''evt-1'') = 1"
proof -
  have e: "one_record_per_event \<lparr>delegatedAccesses = []\<rparr>"
    by (simp add: one_record_per_event_def event_ids_def getAllDelegatedAccesses_def map_values_def)
  have s: "one_record_per_event store1"
    by (simp add: one_record_per_event_def event_ids_def getAllDelegatedAccesses_def map_values_def
        store1_def access1_def)
  have r: "run_ops \<lparr>delegatedAccesses = []\<rparr>
        [Materialize ''evt-1'' access1, CreatePending (access1\<lparr>da_id := ''temp-1''\<rparr>),
         Materialize ''evt-1'' (access1\<lparr>da_id := ''da-2''\<rparr>)]
       = \<lparr>delegatedAccesses = [(''da-1'', access1), (''temp-1'', access1\<lparr>da_id := ''temp-1'', eventId := None\<rparr>)]\<rparr>"
    by (simp add: run_ops_def materialize_def getDelegatedAccessByEventId_def map_values_def
        createDelegatedAccess_def map_set_def access1_def)
  have g: "getDelegatedAccessByEventId store1 ''evt-1'' = Some access1"
    by (simp add: getDelegatedAccessByEventId_def map_values_def store1_def access1_def)
  show ?thesis
    using e r g
      materialize_at_most_once[OF e, of
        "[Materialize ''evt-1'' access1, CreatePending (access1\<lparr>da_id := ''temp-1''\<rparr>),
          Materialize ''evt-1'' (access1\<lparr>da_id := ''da-2''\<rparr>)]" "''evt-1''" "''evt-1''" access1
        "access1\<lparr>da_id := ''da-2''\<rparr>"]
      materialize_at_most_once[OF s, of "[]" "''evt-1''" "''evt-1''" "access1\<lparr>da_id := ''da-2''\<rparr>" access1]
    by simp
qed

subsection \<open>Address normalisation\<close>

lemma of_char_lt: "(of_char c :: nat) < 256"
  by (cases c) simp

lemma to_lower_not_upper: "\<not> is_upper (to_lower_char c)"
  by (auto simp: to_lower_char_def is_upper_def Let_def)

lemma to_lower_of_upper:
  "\<not> is_upper c \<Longrightarrow> to_lower_char (to_upper_char c) = c"
  by (auto simp: to_lower_char_def to_upper_char_def is_upper_def Let_def)

lemma to_lower_id: "\<not> is_upper c \<Longrightarrow> to_lower_char c = c"
  by (auto simp: to_lower_char_def is_upper_def Let_def)

lemma hex_to_lower: "is_hex_digit c \<Longrightarrow> is_hex_digit (to_lower_char c)"
  by (auto simp: to_lower_char_def is_hex_digit_def Let_def)

lemma hex_to_upper: "is_hex_digit c \<Longrightarrow> is_hex_digit (to_upper_char c)"
  by (auto simp: to_upper_char_def is_hex_digit_def Let_def)

lemma length_apply_checksum: "length (apply_checksum up i cs) = length cs"
  by (induction cs arbitrary: i) simp_all

lemma lower_apply_checksum:
  "list_all (\<lambda>c. \<not> is_upper c) cs \<Longrightarrow> toLowerCase (apply_checksum up i cs) = cs"
  by (induction cs arbitrary: i) (simp_all add: toLowerCase_def to_lower_of_upper to_lower_id)

lemma hex_apply_checksum:
  "list_all is_hex_digit cs \<Longrightarrow> list_all is_hex_digit (apply_checksum up i cs)"
  by (induction cs arbitrary: i) (simp_all add: hex_to_upper)

lemma lower_digits:
  "list_all (\<lambda>c. \<not> is_upper c) (toLowerCase cs)"
  by (induction cs) (simp_all add: toLowerCase_def to_lower_not_upper)

lemma hex_lower_digits:
  "list_all is_hex_digit cs \<Longrightarrow> list_all is_hex_digit (toLowerCase cs)"
  by (induction cs) (simp_all add: toLowerCase_def hex_to_lower)

lemma getAddress_well_formed:
  assumes "getAddress ck raw = Inr a"
  shows "well_formed_address a \<and> toLowerCase (drop 2 a) = toLowerCase (drop 2 raw)"
proof -
  from assms have wf: "well_formed_address raw"
    and a: "a = ''0x'' @ apply_checksum (ck (toLowerCase (drop 2 raw))) 0 (toLowerCase (drop 2 raw))"
    by (auto simp: getAddress_def Let_def split: if_splits)
  from wf have len: "length (drop 2 raw) = 40" and hex: "list_all is_hex_digit (drop 2 raw)"
    by (simp_all add: well_formed_address_def)
  have "length a = 42"
    using len by (simp add: a length_apply_checksum toLowerCase_def)
  moreover have "take 2 a = ''0x''" by (simp add: a)
  moreover have "list_all is_hex_digit (drop 2 a)"
    using hex by (simp add: a hex_apply_checksum hex_lower_digits)
  moreover have "toLowerCase (drop 2 a) = toLowerCase (drop 2 raw)"
    by (simp add: a lower_apply_checksum lower_digits)
  ultimately show ?thesis by (simp add: well_formed_address_def)
qed

lemma getAddress_idem: "getAddress ck raw = Inr a \<Longrightarrow> getAddress ck a = Inr a"
proof -
  assume r: "getAddress ck raw = Inr a"
  from getAddress_well_formed[OF r] have wf: "well_formed_address a"
    and low: "toLowerCase (drop 2 a) = toLowerCase (drop 2 raw)" by simp_all
  from r have "a = ''0x'' @ apply_checksum (ck (toLowerCase (drop 2 raw))) 0 (toLowerCase (drop 2 raw))"
    by (auto simp: getAddress_def Let_def split: if_splits)
  with wf low show ?thesis by (simp add: getAddress_def Let_def)
qed

text \<open>
  C7. Address normalisation is idempotent: a well-formed address normalises to an
  address that normalises to itself. Every input that is not a well-formed 20-byte hex
  identifier fails with \<open>InvalidAddress\<close>.
\<close>

theorem getAddress_idempotent:
  "(well_formed_address raw \<longrightarrow>
      (\<exists>a. getAddress ck raw = Inr a \<and> getAddress ck a = Inr a))
   \<and> (\<not> well_formed_address raw \<longrightarrow> getAddress ck raw = Inl ''InvalidAddress'')"
proof (intro conjI impI)
  assume wf: "well_formed_address raw"
  then obtain a where a: "getAddress ck raw = Inr a"
    by (simp add: getAddress_def Let_def)
  with getAddress_idem[OF a] show "\<exists>a. getAddress ck raw = Inr a \<and> getAddress ck a = Inr a"
    by blast
next
  assume "\<not> well_formed_address raw"
  then show "getAddress ck raw = Inl ''InvalidAddress''"
    by (simp add: getAddress_def)
qed

theorem getAddress_idempotent_witness:
  "well_formed_address ''0xABcdef0000000000000000000000000000000012''
   \<and> getAddress even_positions ''0xABcdef0000000000000000000000000000000012''
       = Inr ''0xAbCdEf0000000000000000000000000000000012''
   \<and> getAddress even_positions ''0xAbCdEf0000000000000000000000000000000012''
       = Inr ''0xAbCdEf0000000000000000000000000000000012''
   \<and> \<not> well_formed_address ''0x12''
   \<and> getAddress even_positions ''0x12'' = Inl ''InvalidAddress''"
proof -
  have w: "well_formed_address ''0xABcdef0000000000000000000000000000000012''"
    by (simp add: well_formed_address_def is_hex_digit_def)
  have n: "\<not> well_formed_address ''0x12''"
    by (simp add: well_formed_address_def)
  have g: "getAddress even_positions ''0xABcdef0000000000000000000000000000000012''
       = Inr ''0xAbCdEf0000000000000000000000000000000012''"
    by code_simp
  show ?thesis
    using w n g
      getAddress_idempotent[of "''0xABcdef0000000000000000000000000000000012''" even_positions]
      getAddress_idempotent[of "''0x12''" even_positions]
    by simp
qed

subsection \<open>Executing a transaction\<close>

text \<open>
  C5. Executing a transaction with fewer confirmations than the threshold fails at
  once: with a wallet connected, the only effect is the notice that the threshold is
  not met (with none connected, the notice to connect one); no collaborator is called,
  so nothing is assembled or submitted, and the pending transactions, the signing
  marker and the success notice are left as they were.
\<close>

theorem execute_below_threshold_fails_fast:
  assumes "length (confirmations_of tx) < threshold"
  shows "handleExecuteTransaction E ck w threshold safeAddress ui tx =
           (ui\<lparr>error_notice :=
                 (case connected w of
                    None \<Rightarrow> ConnectWalletFirst
                  | Some account \<Rightarrow> NeedSignatures threshold (length (confirmations_of tx)))\<rparr>,
            None)"
  using assms by (simp add: handleExecuteTransaction_def split: option.splits)

theorem execute_below_threshold_fails_fast_witness:
  "length (confirmations_of tx_BA) < 3
   \<and> handleExecuteTransaction accepting_env even_positions wallet_A 3 ''0xsafe'' ui0 tx_BA =
        (ui0\<lparr>error_notice := NeedSignatures 3 2\<rparr>, None)"
proof -
  have h: "length (confirmations_of tx_BA) < 3"
    by (simp add: confirmations_of_def tx_BA_def)
  have c: "connected wallet_A = Some owner_A"
    by (simp add: connected_def wallet_A_def)
  have n: "length (confirmations_of tx_BA) = 2"
    by (simp add: confirmations_of_def tx_BA_def)
  show ?thesis
    using h execute_below_threshold_fails_fast[OF h, of accepting_env even_positions wallet_A "''0xsafe''" ui0]
    by (simp add: c n)
qed

lemma add_signatures_collected:
  "list_all (\<lambda>c. well_formed_address (owner c)) confs \<Longrightarrow>
   add_signatures E ck confs t =
     Inr (foldl (\<lambda>t p. addSignature E t (fst p) (snd p)) t (collected_signatures ck confs))"
proof (induction confs arbitrary: t)
  case Nil
  then show ?case by (simp add: collected_signatures_def)
next
  case (Cons c confs)
  then have wf: "well_formed_address (owner c)" by simp
  then obtain a where a: "getAddress ck (owner c) = Inr a"
    by (simp add: getAddress_def Let_def)
  with Cons show ?case
    by (simp add: collected_signatures_def)
qed

text \<open>
  C3, as stated, fails. With two confirmations listed in the order B, A and a threshold
  of two, the handler adds the signatures to the transaction in that order, B before
  A, although the address of B is the larger one; and when the ledger rejects the
  execution the handler reports the error, so that execution does not succeed.
\<close>

theorem execute_not_sorted_counterexample:
  "2 \<le> length (confirmations_of tx_BA)
   \<and> handleExecuteTransaction accepting_env even_positions wallet_A 2 ''0xsafe'' ui0 tx_BA =
        (ui0\<lparr>pendingTxs := [], success_notice := ExecutedSuccessfully ''0xexecuted''\<rparr>,
         Some [(''0x00000000000000000000000000000000000000B2'', ''sig-B''),
               (''0x00000000000000000000000000000000000000A1'', ''sig-A'')])
   \<and> address_value ''0x00000000000000000000000000000000000000B2'' = 178
   \<and> address_value ''0x00000000000000000000000000000000000000A1'' = 161
   \<and> \<not> ascending_by_owner [(''0x00000000000000000000000000000000000000B2'', ''sig-B''),
                             (''0x00000000000000000000000000000000000000A1'', ''sig-A'')]
   \<and> handleExecuteTransaction rejecting_env even_positions wallet_A 2 ''0xsafe'' ui0 tx_BA =
        (ui0\<lparr>error_notice := Thrown ''GS026''\<rparr>,
         Some [(''0x00000000000000000000000000000000000000B2'', ''sig-B''),
               (''0x00000000000000000000000000000000000000A1'', ''sig-A'')])"
  by code_simp

text \<open>
  C3, amended. For a transaction whose list of confirmations is at least as long as
  the threshold, with a wallet connected, well-formed owner addresses, and the relay
  fetch and the SDK set-up succeeding, the handler passes the threshold check and hands
  to \<open>executeTransaction\<close> the transaction with one signature added per confirmation that
  has a non-empty signature, under the normalised address of its owner, in the order in
  which the confirmations are listed. The handler does not sort them: any ordering of
  the encoded bundle is left to the SDK. Execution succeeds exactly when
  \<open>executeTransaction\<close> does; otherwise its error is reported.
\<close>

theorem execute_adds_signatures_in_listed_order:
  assumes "connected w = Some account"
    and "threshold \<le> length (confirmations_of tx)"
    and "list_all (\<lambda>c. well_formed_address (owner c)) (confirmations_of tx)"
    and "getTx E (safeTxHash tx) = Inr d"
    and "getSafeSdk E account = Inr ()"
    and "createTransaction E (tx_to d) (string_default (tx_value d) ''0'')
           (string_default (tx_data d) ''0x'') = Inr t0"
    and "signed = foldl (\<lambda>t p. addSignature E t (fst p) (snd p)) t0
                    (collected_signatures ck (confirmations_of tx))"
  shows "snd (handleExecuteTransaction E ck w threshold safeAddress ui tx) = Some signed
       \<and> (\<forall>h. executeTransaction E signed = Inr h \<longrightarrow>
             success_notice (fst (handleExecuteTransaction E ck w threshold safeAddress ui tx))
               = ExecutedSuccessfully h
             \<and> isSigning (fst (handleExecuteTransaction E ck w threshold safeAddress ui tx)) = None)
       \<and> (\<forall>msg. executeTransaction E signed = Inl msg \<longrightarrow>
             fst (handleExecuteTransaction E ck w threshold safeAddress ui tx)
               = ui\<lparr>isSigning := None, error_notice := Thrown msg, success_notice := Blank\<rparr>)"
proof -
  have t: "execute_try E ck account tx = (executeTransaction E signed, Some signed)"
    using assms(3-7) by (simp add: execute_try_def add_signatures_collected)
  have g: "\<not> length (confirmations_of tx) < threshold"
    using assms(2) by simp
  show ?thesis
  proof (cases "executeTransaction E signed")
    case (Inl msg)
    with t g assms(1) show ?thesis
      by (simp add: handleExecuteTransaction_def Let_def)
  next
    case (Inr h)
    with t g assms(1) show ?thesis
      by (simp add: handleExecuteTransaction_def Let_def loadPendingTransactions_def
          split: sum.splits option.splits)
  qed
qed

theorem execute_adds_signatures_in_listed_order_witness:
  "connected wallet_A = Some owner_A
   \<and> 2 \<le> length (confirmations_of tx_BA)
   \<and> list_all (\<lambda>c. well_formed_address (owner c)) (confirmations_of tx_BA)
   \<and> getTx accepting_env (safeTxHash tx_BA) = Inr tx_BA
   \<and> getSafeSdk accepting_env owner_A = Inr ()
   \<and> createTransaction accepting_env (tx_to tx_BA) (string_default (tx_value tx_BA) ''0'')
        (string_default (tx_data tx_BA) ''0x'') = Inr []
   \<and> foldl (\<lambda>t p. addSignature accepting_env t (fst p) (snd p)) []
        (collected_signatures even_positions (confirmations_of tx_BA))
       = [(''0x00000000000000000000000000000000000000B2'', ''sig-B''),
          (''0x00000000000000000000000000000000000000A1'', ''sig-A'')]
   \<and> snd (handleExecuteTransaction accepting_env even_positions wallet_A 2 ''0xsafe'' ui0 tx_BA)
       = Some [(''0x00000000000000000000000000000000000000B2'', ''sig-B''),
               (''0x00000000000000000000000000000000000000A1'', ''sig-A'')]
   \<and> success_notice (fst (handleExecuteTransaction accepting_env even_positions wallet_A 2 ''0xsafe'' ui0 tx_BA))
       = ExecutedSuccessfully ''0xexecuted''"
proof -
  have a1: "connected wallet_A = Some owner_A"
    by (simp add: connected_def wallet_A_def)
  have a2: "2 \<le> length (confirmations_of tx_BA)"
    by (simp add: confirmations_of_def tx_BA_def)
  have a3: "list_all (\<lambda>c. well_formed_address (owner c)) (confirmations_of tx_BA)"
    by code_simp
  have a4: "getTx accepting_env (safeTxHash tx_BA) = Inr tx_BA"
    by (simp add: accepting_env_def)
  have a5: "getSafeSdk accepting_env owner_A = Inr ()"
    by (simp add: accepting_env_def)
  have a6: "createTransaction accepting_env (tx_to tx_BA) (string_default (tx_value tx_BA) ''0'')
        (string_default (tx_data tx_BA) ''0x'') = Inr []"
    by (simp add: accepting_env_def)
  have a7: "[(''0x00000000000000000000000000000000000000B2'', ''sig-B''),
             (''0x00000000000000000000000000000000000000A1'', ''sig-A'')]
       = foldl (\<lambda>t p. addSignature accepting_env t (fst p) (snd p)) []
          (collected_signatures even_positions (confirmations_of tx_BA))"
    by code_simp
  have x: "executeTransaction accepting_env
             [(''0x00000000000000000000000000000000000000B2'', ''sig-B''),
              (''0x00000000000000000000000000000000000000A1'', ''sig-A'')] = Inr ''0xexecuted''"
    by (simp add: accepting_env_def)
  show ?thesis
    using a1 a2 a3 a4 a5 a6 a7[symmetric] x
      execute_adds_signatures_in_listed_order[OF a1 a2 a3 a4 a5 a6 a7, of "''0xsafe''" ui0]
    by simp
qed

subsection \<open>Confirming a transaction\<close>

lemma getAddress_Inr_iff: "(\<exists>a. getAddress ck raw = Inr a) \<longleftrightarrow> well_formed_address raw"
  by (simp add: getAddress_def Let_def)

lemma hasAlreadySigned_False:
  assumes "getAddress ck account = Inr cur"
  shows "hasAlreadySigned ck cur confs = Inr False \<Longrightarrow> confirmations_by ck account confs = []"
proof (induction confs)
  case Nil
  then show ?case by (simp add: confirmations_by_def)
next
  case (Cons c confs)
  from Cons.prems obtain a where a: "getAddress ck (owner c) = Inr a"
    and ne: "toLowerCase a \<noteq> toLowerCase cur"
    and rest: "hasAlreadySigned ck cur confs = Inr False"
    by (auto split: sum.splits if_splits)
  from a ne assms have "\<not> same_owner ck account (owner c)"
    by (auto simp: same_owner_def)
  with Cons.IH[OF rest] show ?case
    by (simp add: confirmations_by_def)
qed

lemma hasAlreadySigned_True:
  assumes "getAddress ck account = Inr cur"
    and "list_all (\<lambda>c. well_formed_address (owner c)) confs"
    and "confirmations_by ck account confs \<noteq> []"
  shows "hasAlreadySigned ck cur confs = Inr True"
  using assms(2,3)
proof (induction confs)
  case Nil
  then show ?case by (simp add: confirmations_by_def)
next
  case (Cons c confs)
  then obtain a where a: "getAddress ck (owner c) = Inr a"
    using getAddress_Inr_iff[of ck "owner c"] by auto
  show ?case
  proof (cases "toLowerCase a = toLowerCase cur")
    case True
    with a show ?thesis by simp
  next
    case False
    with a assms(1) have "\<not> same_owner ck account (owner c)"
      by (auto simp: same_owner_def)
    with Cons.prems have "confirmations_by ck account confs \<noteq> []"
      by (simp add: confirmations_by_def)
    with Cons a False show ?thesis by simp
  qed
qed

lemma hasAlreadySigned_not_False:
  assumes "getAddress ck account = Inr cur" and "confirmations_by ck account confs \<noteq> []"
  shows "hasAlreadySigned ck cur confs \<noteq> Inr False"
  using hasAlreadySigned_False[OF assms(1)] assms(2) by blast

lemma sign_sent_only_if_unsigned:
  assumes "handleSignTransaction E ck w owners safeAddress ui tx = Inr (ui', Some sent)"
  shows "\<exists>account cur. connected w = Some account \<and> getAddress ck account = Inr cur
           \<and> hasAlreadySigned ck cur (confirmations_of tx) = Inr False"
  using assms
  by (auto simp: handleSignTransaction_def Let_def split: option.splits sum.splits if_splits bool.splits prod.splits)

lemma sign_already_signed_no_submission:
  assumes "confirmations_by ck account (confirmations_of tx) \<noteq> []"
    and "connected w = Some account"
  shows "case handleSignTransaction E ck w owners safeAddress ui tx of
           Inl msg \<Rightarrow> True
         | Inr (ui', sent) \<Rightarrow> sent = None"
proof (cases "handleSignTransaction E ck w owners safeAddress ui tx")
  case (Inl msg)
  then show ?thesis by simp
next
  case (Inr r)
  obtain ui' sent where r: "r = (ui', sent)" by (cases r)
  show ?thesis
  proof (cases sent)
    case None
    with Inr r show ?thesis by simp
  next
    case (Some x)
    with Inr r sign_sent_only_if_unsigned[of E ck w owners safeAddress ui tx ui' x]
    obtain acc cur where "connected w = Some acc" "getAddress ck acc = Inr cur"
      "hasAlreadySigned ck cur (confirmations_of tx) = Inr False" by auto
    with assms hasAlreadySigned_not_False[of ck account cur "confirmations_of tx"]
    show ?thesis by simp
  qed
qed

lemma sign_already_signed:
  assumes "confirmations_by ck account (confirmations_of tx) \<noteq> []"
    and "connected w = Some account"
    and "getAddress ck account = Inr cur"
    and "List.member owners cur"
    and "list_all (\<lambda>c. well_formed_address (owner c)) (confirmations_of tx)"
  shows "handleSignTransaction E ck w owners safeAddress ui tx
           = Inr (ui\<lparr>error_notice := AlreadySigned\<rparr>, None)"
  using assms hasAlreadySigned_True[OF assms(3,5,1)]
  by (simp add: handleSignTransaction_def)

lemma same_owner_trans:
  "same_owner ck a b \<Longrightarrow> same_owner ck a c = same_owner ck b c"
  by (auto simp: same_owner_def split: sum.splits)

lemma confirm_attempt_cases:
  assumes "confirm_attempt ck safeAddress tx (ui, confs) (E, owners, account) = (ui', confs')"
  shows "confs' = confs
       \<or> (\<exists>sg. confs' = confs @ [\<lparr>owner = account, signature = Some sg\<rparr>]
              \<and> confirmations_by ck account confs = [] \<and> same_owner ck account account)"
proof (cases "handleSignTransaction E ck \<lparr>viemAccount = Some account, walletClient = True\<rparr>
                owners safeAddress ui (tx\<lparr>confirmations := Some confs\<rparr>)")
  case (Inl msg)
  with assms show ?thesis by (simp add: confirm_attempt_def)
next
  case (Inr r)
  obtain u sent where r: "r = (u, sent)" by (cases r)
  show ?thesis
  proof (cases sent)
    case None
    with Inr r assms show ?thesis by (simp add: confirm_attempt_def)
  next
    case (Some hs)
    obtain h sg where hs: "hs = (h, sg)" by (cases hs)
    from Inr r Some sign_sent_only_if_unsigned[of E ck _ owners safeAddress ui _ u hs]
    obtain acc cur where c: "connected \<lparr>viemAccount = Some account, walletClient = True\<rparr> = Some acc"
      and g: "getAddress ck acc = Inr cur"
      and f: "hasAlreadySigned ck cur (confirmations_of (tx\<lparr>confirmations := Some confs\<rparr>)) = Inr False"
      by blast
    from c have acc: "acc = account" by (simp add: connected_def)
    with g f have "confirmations_by ck account confs = []"
      using hasAlreadySigned_False[of ck account cur confs] by (simp add: confirmations_of_def)
    moreover from g acc have "same_owner ck account account"
      by (simp add: same_owner_def)
    ultimately show ?thesis using Inr r Some hs assms
      by (auto simp: confirm_attempt_def split: sum.splits)
  qed
qed

lemma confirm_attempt_count:
  assumes "confirm_attempt ck safeAddress tx (ui, confs) attempt = (ui', confs')"
  shows "(length (confirmations_by ck a confs) \<le> 1 \<longrightarrow> length (confirmations_by ck a confs') \<le> 1)
       \<and> (length (confirmations_by ck a confs) = 1 \<longrightarrow> length (confirmations_by ck a confs') = 1)"
proof -
  obtain E owners account where att: "attempt = (E, owners, account)" by (cases attempt)
  from confirm_attempt_cases[OF assms[unfolded att]]
  show ?thesis
  proof
    assume "confs' = confs"
    then show ?thesis by simp
  next
    assume "\<exists>sg. confs' = confs @ [\<lparr>owner = account, signature = Some sg\<rparr>]
              \<and> confirmations_by ck account confs = [] \<and> same_owner ck account account"
    then obtain sg where c: "confs' = confs @ [\<lparr>owner = account, signature = Some sg\<rparr>]"
      and e: "confirmations_by ck account confs = []" by blast
    show ?thesis
    proof (cases "same_owner ck a account")
      case True
      then have "confirmations_by ck a confs = confirmations_by ck account confs"
        by (simp add: confirmations_by_def same_owner_trans[OF True])
      with e c True show ?thesis by (simp add: confirmations_by_def)
    next
      case False
      with c show ?thesis by (simp add: confirmations_by_def)
    qed
  qed
qed

lemma confirm_attempts_count:
  "(length (confirmations_by ck a (snd st)) \<le> 1 \<longrightarrow>
      length (confirmations_by ck a (snd (confirm_attempts ck safeAddress tx st attempts))) \<le> 1)
   \<and> (length (confirmations_by ck a (snd st)) = 1 \<longrightarrow>
      length (confirmations_by ck a (snd (confirm_attempts ck safeAddress tx st attempts))) = 1)"
proof (induction attempts arbitrary: st)
  case Nil
  then show ?case by (simp add: confirm_attempts_def)
next
  case (Cons att attempts)
  obtain ui confs where st: "st = (ui, confs)" by (cases st)
  obtain ui' confs' where n: "confirm_attempt ck safeAddress tx (ui, confs) att = (ui', confs')"
    by (cases "confirm_attempt ck safeAddress tx (ui, confs) att")
  from confirm_attempt_count[OF n, of a] Cons.IH[of "(ui', confs')"] st n
  show ?case by (simp add: confirm_attempts_def)
qed

lemma confirm_attempt_first:
  assumes "confirm_attempt ck safeAddress tx (ui, confs) (E, owners, account) = (ui', confs')"
    and "confs' \<noteq> confs"
  shows "length (confirmations_by ck account confs') = 1"
  using confirm_attempt_cases[OF assms(1)] assms(2)
  by (auto simp: confirmations_by_def)

text \<open>
  C6. When the connected owner already has a confirmation in the transaction's list,
  confirming submits nothing to the relay, whatever the collaborators do, and, the
  wallet being an owner and the listed addresses well-formed, it fails with the
  already-signed notice and leaves the rest of the state as it was. Hence in every run
  of confirmation attempts, by any owners in any order, each made on the list as the
  relay holds it then, an owner never has more than one confirmation: the attempt that
  adds one leaves exactly one for that owner, and an owner with exactly one keeps
  exactly one.
\<close>

theorem confirm_twice_already_signed:
  "(confirmations_by ck account (confirmations_of tx) \<noteq> [] \<and> connected w = Some account \<longrightarrow>
      (case handleSignTransaction E ck w owners safeAddress ui tx of
         Inl msg \<Rightarrow> True
       | Inr (ui', sent) \<Rightarrow> sent = None))
   \<and> (confirmations_by ck account (confirmations_of tx) \<noteq> [] \<and> connected w = Some account
       \<and> getAddress ck account = Inr cur \<and> List.member owners cur
       \<and> list_all (\<lambda>c. well_formed_address (owner c)) (confirmations_of tx) \<longrightarrow>
      handleSignTransaction E ck w owners safeAddress ui tx
        = Inr (ui\<lparr>error_notice := AlreadySigned\<rparr>, None))
   \<and> (confirm_attempt ck safeAddress tx (ui, confs) (E, owners, account) = (ui', confs')
       \<and> confs' \<noteq> confs \<longrightarrow>
      length (confirmations_by ck account confs') = 1)
   \<and> (length (confirmations_by ck a confs) \<le> 1 \<longrightarrow>
      length (confirmations_by ck a
        (snd (confirm_attempts ck safeAddress tx (ui, confs) attempts))) \<le> 1)
   \<and> (length (confirmations_by ck a confs) = 1 \<longrightarrow>
      length (confirmations_by ck a
        (snd (confirm_attempts ck safeAddress tx (ui, confs) attempts))) = 1)"
  using sign_already_signed_no_submission[of ck account tx w E owners safeAddress ui]
    sign_already_signed[of ck account tx w cur owners E safeAddress ui]
    confirm_attempt_first[of ck safeAddress tx ui confs E owners account ui' confs']
    confirm_attempts_count[of ck a "(ui, confs)" safeAddress tx attempts]
  by simp

theorem confirm_twice_already_signed_witness:
  "confirmations_by even_positions owner_A (confirmations_of tx_BA) \<noteq> []
   \<and> connected wallet_A = Some owner_A
   \<and> getAddress even_positions owner_A = Inr ''0x00000000000000000000000000000000000000A1''
   \<and> List.member owners_AB ''0x00000000000000000000000000000000000000A1''
   \<and> list_all (\<lambda>c. well_formed_address (owner c)) (confirmations_of tx_BA)
   \<and> handleSignTransaction accepting_env even_positions wallet_A owners_AB ''0xsafe'' ui0 tx_BA
        = Inr (ui0\<lparr>error_notice := AlreadySigned\<rparr>, None)
   \<and> length (confirmations_by even_positions owner_A (confirmations_of tx_B)) \<le> 1
   \<and> snd (confirm_attempts even_positions ''0xsafe'' tx_B (ui0, confirmations_of tx_B)
        [(accepting_env, owners_AB, owner_A), (accepting_env, owners_AB, owner_B),
         (accepting_env, owners_AB, ''0x00000000000000000000000000000000000000A1'')])
       = [\<lparr>owner = owner_B, signature = Some ''sig-B''\<rparr>,
          \<lparr>owner = owner_A, signature = Some ''sig-new''\<rparr>]
   \<and> length (confirmations_by even_positions owner_A
        (snd (confirm_attempts even_positions ''0xsafe'' tx_B (ui0, confirmations_of tx_B)
          [(accepting_env, owners_AB, owner_A), (accepting_env, owners_AB, owner_B),
           (accepting_env, owners_AB, ''0x00000000000000000000000000000000000000A1'')]))) = 1"
proof -
  have h1: "confirmations_by even_positions owner_A (confirmations_of tx_BA) \<noteq> []"
    by code_simp
  have h2: "connected wallet_A = Some owner_A"
    by (simp add: connected_def wallet_A_def)
  have h3: "getAddress even_positions owner_A = Inr ''0x00000000000000000000000000000000000000A1''"
    by code_simp
  have h4: "List.member owners_AB ''0x00000000000000000000000000000000000000A1''"
    by (simp add: owners_AB_def)
  have h5: "list_all (\<lambda>c. well_formed_address (owner c)) (confirmations_of tx_BA)"
    by code_simp
  have h6: "length (confirmations_by even_positions owner_A (confirmations_of tx_B)) \<le> 1"
    by code_simp
  have r: "snd (confirm_attempts even_positions ''0xsafe'' tx_B (ui0, confirmations_of tx_B)
        [(accepting_env, owners_AB, owner_A), (accepting_env, owners_AB, owner_B),
         (accepting_env, owners_AB, ''0x00000000000000000000000000000000000000A1'')])
       = [\<lparr>owner = owner_B, signature = Some ''sig-B''\<rparr>,
          \<lparr>owner = owner_A, signature = Some ''sig-new''\<rparr>]"
    by code_simp
  have c: "length (confirmations_by even_positions owner_A
             [\<lparr>owner = owner_B, signature = Some ''sig-B''\<rparr>,
              \<lparr>owner = owner_A, signature = Some ''sig-new''\<rparr>]) = 1"
    by code_simp
  show ?thesis
    using h1 h2 h3 h4 h5 h6 r c
      confirm_twice_already_signed[where ck = even_positions and account = owner_A and tx = tx_BA
        and w = wallet_A and E = accepting_env and owners = owners_AB and safeAddress = "''0xsafe''"
        and ui = ui0 and cur = "''0x00000000000000000000000000000000000000A1''"
        and confs = "[]" and ui' = ui0 and confs' = "[]" and a = owner_A and attempts = "[]"]
      confirm_twice_already_signed[where ck = even_positions and account = owner_A and tx = tx_B
        and w = wallet_A and E = accepting_env and owners = owners_AB and safeAddress = "''0xsafe''"
        and ui = ui0 and cur = "''0x00000000000000000000000000000000000000A1''"
        and confs = "confirmations_of tx_B" and ui' = ui0 and confs' = "confirmations_of tx_B"
        and a = owner_A
        and attempts = "[(accepting_env, owners_AB, owner_A), (accepting_env, owners_AB, owner_B),
          (accepting_env, owners_AB, ''0x00000000000000000000000000000000000000A1'')]"]
    by auto
qed

end
